theory Spec2Isabelle
  imports Complex_Main "HOL-Library.Monad_Syntax"
begin

section \<open>Function optimisation with REINFORCE: the notebook's utilities\<close>

text \<open>
  The notebook computes on NumPy arrays of 64-bit floats and on Python numbers. In the
  objective functions and in the optimizer loop numbers are modelled as \<^typ>\<open>real\<close> with
  exact arithmetic, a one-dimensional array or a Python list of numbers as
  \<^typ>\<open>real list\<close>; a bit vector is such a list whose entries are 0 or 1. The logistic
  function is modelled twice: \<open>sigmoid\<close> is the exact function, which the loop applies to the
  weights, and \<open>sigmoid64\<close> is the function as the notebook computes it on 64-bit floats,
  with the rounding, the overflow and the saturation of that format.
\<close>

datatype error = AssertionError string | IndexError

definition bitvec :: "real list \<Rightarrow> bool" where
  "bitvec u = list_all (\<lambda>b. b = 0 \<or> b = 1) u"

text \<open>The number of ones in a vector.\<close>

definition ones :: "real list \<Rightarrow> nat" where
  "ones u = count_list u 1"

text \<open>Flipping every bit of a vector: \<open>1 - u\<close>.\<close>

definition flip :: "real list \<Rightarrow> real list" where
  "flip u = map (\<lambda>b. 1 - b) u"

subsection \<open>sigmoid\<close>

text \<open>\<^verbatim>\<open>s = 1/(1+np.exp(-x))\<close>, the exact function.\<close>

definition sigmoid :: "real \<Rightarrow> real" where
  "sigmoid x = 1 / (1 + exp (- x))"

subsection \<open>sigmoid on 64-bit floats\<close>

text \<open>
  A value of the 64-bit binary format is a finite number \<open>m * 2^e\<close> with an integer
  \<open>|m| < 2^53\<close> and \<open>-1074 \<le> e \<le> 971\<close>, an infinity or a NaN; the sign of a zero is not
  kept.
\<close>

datatype double = Finite real | PosInf | NegInf | NaN

text \<open>Rounding to the nearest integer, a tie going to the even one.\<close>

definition round_even :: "real \<Rightarrow> int" where
  "round_even r =
     (let f = \<lfloor>r\<rfloor>; d = r - of_int f in
      if d < 1 / 2 then f else if 1 / 2 < d then f + 1 else if even f then f else f + 1)"

text \<open>
  The exponent of the spacing of the doubles around \<open>x\<close>: a number in \<open>[2^k, 2^(k+1))\<close> has
  a significand of 53 bits, so the spacing there is \<open>2^(k-52)\<close>; below \<open>2^(-1022)\<close> the
  spacing stays \<open>2^(-1074)\<close> (subnormal numbers).
\<close>

definition ulp_exponent :: "real \<Rightarrow> int" where
  "ulp_exponent x = max (\<lfloor>log 2 \<bar>x\<bar>\<rfloor> - 52) (- 1074)"

text \<open>The multiple of the spacing nearest to \<open>x\<close>, a tie going to the even significand.\<close>

definition nearest :: "real \<Rightarrow> real" where
  "nearest x =
     (if x = 0 then 0
      else of_int (round_even (x / 2 powr of_int (ulp_exponent x))) * 2 powr of_int (ulp_exponent x))"

text \<open>
  The result of an operation whose exact value is \<open>x\<close>: the nearest double, or an infinity
  when that is \<open>2^1024\<close> or more in magnitude (overflow).
\<close>

definition round64 :: "real \<Rightarrow> double" where
  "round64 x =
     (let y = nearest x in
      if 2 ^ 1024 \<le> y then PosInf else if y \<le> - (2 ^ 1024) then NegInf else Finite y)"

text \<open>
  \<^verbatim>\<open>np.exp\<close> at a finite double, taken to return the double nearest to the exponential
  (overflowing to infinity, underflowing to zero).
\<close>

definition exp64 :: "real \<Rightarrow> double" where
  "exp64 x = round64 (exp x)"

text \<open>The sum \<open>a + b\<close> and the quotient \<open>a / b\<close> of a finite double \<open>a\<close> and a double \<open>b\<close>.\<close>

fun add64 :: "real \<Rightarrow> double \<Rightarrow> double" where
  "add64 a (Finite b) = round64 (a + b)"
| "add64 a PosInf = PosInf"
| "add64 a NegInf = NegInf"
| "add64 a NaN = NaN"

fun div64 :: "real \<Rightarrow> double \<Rightarrow> double" where
  "div64 a (Finite b) =
     (if b = 0 then (if a = 0 then NaN else if 0 < a then PosInf else NegInf)
      else round64 (a / b))"
| "div64 a PosInf = Finite 0"
| "div64 a NegInf = Finite 0"
| "div64 a NaN = NaN"

text \<open>\<^verbatim>\<open>s = 1/(1+np.exp(-x))\<close> at a finite double \<open>x\<close>; the negation is exact.\<close>

definition sigmoid64 :: "real \<Rightarrow> double" where
  "sigmoid64 x = div64 1 (add64 1 (exp64 (- x)))"

subsection \<open>one_max, two_max\<close>

text \<open>\<^verbatim>\<open>J = 10*np.sum(u)\<close>\<close>

definition one_max :: "real list \<Rightarrow> real" where
  "one_max u = 10 * sum_list u"

text \<open>\<^verbatim>\<open>J = abs(18*sum(u)-8*len(u))\<close>\<close>

definition two_max :: "real list \<Rightarrow> real" where
  "two_max u = \<bar>18 * sum_list u - 8 * real (length u)\<bar>"

subsection \<open>plateaus\<close>

text \<open>
  The inner loop \<^verbatim>\<open>for i in range(lo, hi): J_k = J_k * 2.5 * n * u[i]\<close>, over the list
  of indices of the range. Reading \<open>u[i]\<close> past the end of \<open>u\<close> raises IndexError.
\<close>

fun plateaus_inner :: "real list \<Rightarrow> nat list \<Rightarrow> real \<Rightarrow> error + real" where
  "plateaus_inner u [] J_k = Inr J_k"
| "plateaus_inner u (i # is) J_k =
     (if i < length u
      then plateaus_inner u is (J_k * (5 / 2) * real (length u) * (u ! i))
      else Inl IndexError)"

text \<open>
  The bounds \<^verbatim>\<open>int(k * n/4+1)\<close> and \<^verbatim>\<open>int((k+1) * n/4)\<close> truncate a quotient of
  non-negative numbers, which is the floor division written here.
\<close>

definition lower :: "nat \<Rightarrow> nat \<Rightarrow> nat" where
  "lower k n = k * n div 4 + 1"

definition upper :: "nat \<Rightarrow> nat \<Rightarrow> nat" where
  "upper k n = (k + 1) * n div 4"

text \<open>
  The outer loop \<^verbatim>\<open>for k in range(4)\<close>, over the list of the values of \<open>k\<close>; its
  state is the pair of \<open>J\<close> and \<open>J_k\<close>. The body assigns \<open>J_k\<close> in the inner loop and then
  \<^verbatim>\<open>J = J + J_k\<close>; \<open>J_k\<close> is carried to the next \<open>k\<close> as it is.
\<close>

fun plateaus_outer :: "real list \<Rightarrow> nat list \<Rightarrow> real \<Rightarrow> real \<Rightarrow> error + real" where
  "plateaus_outer u [] J J_k = Inr J"
| "plateaus_outer u (k # ks) J J_k =
     (case plateaus_inner u [lower k (length u) ..< upper k (length u)] J_k of
        Inl e \<Rightarrow> Inl e
      | Inr J_k' \<Rightarrow> plateaus_outer u ks (J + J_k') J_k')"

definition plateaus :: "real list \<Rightarrow> error + real" where
  "plateaus u =
     (let J = 0; J_k = 1; n = length u in
      if n mod 4 \<noteq> 0 then Inl (AssertionError ''n must be a multiple of 4.'')
      else plateaus_outer u [0 ..< 4] J J_k)"

section \<open>The team network: the optimizer loop\<close>

subsection \<open>The random source\<close>

text \<open>
  The notebook draws from NumPy's global generator. Its state is made explicit as a value of
  type \<open>'g\<close>, threaded through every draw; the two kinds of draw the notebook uses are
  parameters: one standard normal number, and one number from the binomial distribution of
  one trial with success probability \<open>q\<close>.
\<close>

record 'g random =
  randn :: "'g \<Rightarrow> real \<times> 'g"
  binomial1 :: "real \<Rightarrow> 'g \<Rightarrow> real \<times> 'g"

text \<open>\<^verbatim>\<open>np.random.randn(1,n)\<close>: \<open>n\<close> draws, one after the other.\<close>

fun randn_vec :: "('g \<Rightarrow> real \<times> 'g) \<Rightarrow> nat \<Rightarrow> 'g \<Rightarrow> real list \<times> 'g" where
  "randn_vec f 0 g = ([], g)"
| "randn_vec f (Suc k) g =
     (let (x, g1) = f g; (xs, g2) = randn_vec f k g1 in (x # xs, g2))"

text \<open>\<^verbatim>\<open>np.random.binomial(1, p[:, t], n)\<close>: one draw for each entry of the vector.\<close>

fun binomial_vec :: "(real \<Rightarrow> 'g \<Rightarrow> real \<times> 'g) \<Rightarrow> real list \<Rightarrow> 'g \<Rightarrow> real list \<times> 'g" where
  "binomial_vec f [] g = ([], g)"
| "binomial_vec f (q # qs) g =
     (let (x, g1) = f q g; (xs, g2) = binomial_vec f qs g1 in (x # xs, g2))"

subsection \<open>The arrays\<close>

text \<open>
  An array of shape \<open>(n,T)\<close> is the list of its \<open>T\<close> columns, each a list of \<open>n\<close> numbers:
  \<open>a ! t\<close> is \<open>a[:, t]\<close>. An array of shape \<open>(T)\<close> is a list of \<open>T\<close> numbers. Reading or
  writing index \<open>t\<close> of an array with no such index raises IndexError, the value \<open>None\<close>.
  Every column that the cell writes has \<open>n\<close> entries, as the column it replaces.
  The arrays \<open>p\<close>, \<open>r\<close> and \<open>y\<close> of the notebook are the fields \<open>p_arr\<close>, \<open>r_arr\<close> and
  \<open>y_arr\<close>.
\<close>

definition rd :: "'a list \<Rightarrow> nat \<Rightarrow> 'a option" where
  "rd a t = (if t < length a then Some (a ! t) else None)"

definition wr :: "'a list \<Rightarrow> nat \<Rightarrow> 'a \<Rightarrow> 'a list option" where
  "wr a t v = (if t < length a then Some (a[t := v]) else None)"

record 'g state =
  w_0 :: "real list list"
  delta_w0 :: "real list list"
  e_0 :: "real list list"
  p_arr :: "real list list"
  r_arr :: "real list"
  r_bar :: "real list"
  rho :: "real list"
  y_arr :: "real list list"
  rng :: 'g

text \<open>Part a of the cell: the arrays of zeros, the first column of weights drawn at random.\<close>

definition init :: "'g random \<Rightarrow> nat \<Rightarrow> nat \<Rightarrow> 'g \<Rightarrow> 'g state option" where
  "init R n T g = do {
     let zeros = replicate T (replicate n 0);
     let (ws, g') = randn_vec (randn R) n g;
     w_0' \<leftarrow> wr zeros 0 ws;
     let r = replicate T 0;
     r0 \<leftarrow> rd r 0;
     r_bar' \<leftarrow> wr (replicate T 0) 0 r0;
     r0 \<leftarrow> rd r 0;
     rho' \<leftarrow> wr (replicate T 0) 0 r0;
     Some \<lparr>w_0 = w_0', delta_w0 = zeros, e_0 = zeros, p_arr = zeros, r_arr = r,
           r_bar = r_bar', rho = rho', y_arr = zeros, rng = g'\<rparr>
   }"

subsection \<open>One iteration\<close>

text \<open>
  The body of the loop at index \<open>t\<close>, statement by statement. The objective \<open>J\<close> is
  \<open>one_max\<close> in the notebook.
\<close>

definition body ::
  "'g random \<Rightarrow> (real list \<Rightarrow> real) \<Rightarrow> real \<Rightarrow> real \<Rightarrow> real \<Rightarrow> nat \<Rightarrow> 'g state \<Rightarrow> 'g state option"
where
  "body R J alpha delta gamma t s = do {
     w_t \<leftarrow> rd (w_0 s) t;
     p' \<leftarrow> wr (p_arr s) t (map sigmoid w_t);
     p_t \<leftarrow> rd p' t;
     let (sample, g') = binomial_vec (binomial1 R) p_t (rng s);
     y' \<leftarrow> wr (y_arr s) t sample;
     y_t \<leftarrow> rd y' t;
     e' \<leftarrow> wr (e_0 s) t (map2 (-) y_t p_t);
     r' \<leftarrow> wr (r_arr s) t (J y_t);
     r_t \<leftarrow> rd r' t;
     rb_t \<leftarrow> rd (r_bar s) t;
     r_bar' \<leftarrow> wr (r_bar s) (t + 1) (gamma * rb_t + (1 - gamma) * r_t);
     r_t1 \<leftarrow> rd r' (t + 1);
     rb_t \<leftarrow> rd r_bar' t;
     rho' \<leftarrow> wr (rho s) (t + 1) (r_t1 - rb_t);
     e_t \<leftarrow> rd e' t;
     dw' \<leftarrow> wr (delta_w0 s) t
            (map2 (-) (map (\<lambda>e. alpha * r_t * e) e_t) (map (\<lambda>w. delta * w) w_t));
     dw_t \<leftarrow> rd dw' t;
     w_0' \<leftarrow> wr (w_0 s) (t + 1) (map2 (+) w_t dw_t);
     Some \<lparr>w_0 = w_0', delta_w0 = dw', e_0 = e', p_arr = p', r_arr = r',
           r_bar = r_bar', rho = rho', y_arr = y', rng = g'\<rparr>
   }"

subsection \<open>The loop\<close>

text \<open>
  \<^verbatim>\<open>for t in range(T-1): ...; if np.all(y[:,t] == max): break\<close>. The loop ends by the
  \<open>break\<close> or by exhausting the range. It returns how it ended, the number of iterations it
  executed (the notebook's \<open>t\<close> is one less) and the arrays. The known maximum \<open>maxv\<close>
  (\<open>max\<close> in the notebook) has the length of a sample, so that the comparison of all entries
  is the equality of the two vectors.
\<close>

datatype exit = Break | Exhausted

function loop ::
  "'g random \<Rightarrow> (real list \<Rightarrow> real) \<Rightarrow> real list \<Rightarrow> real \<Rightarrow> real \<Rightarrow> real \<Rightarrow> nat \<Rightarrow> nat \<Rightarrow> 'g state
     \<Rightarrow> (exit \<times> nat \<times> 'g state) option"
where
  "loop R J maxv alpha delta gamma T t s =
     (if t < T - 1 then
        (case body R J alpha delta gamma t s of
           None \<Rightarrow> None
         | Some s' \<Rightarrow>
             if y_arr s' ! t = maxv then Some (Break, t + 1, s')
             else loop R J maxv alpha delta gamma T (t + 1) s')
      else Some (Exhausted, t, s))"
  by pat_completeness auto
termination
  by (relation "measure (\<lambda>(R, J, maxv, alpha, delta, gamma, T, t, s). T - 1 - t)") auto

declare loop.simps [simp del]

text \<open>The cell: initialisation, then the loop from \<open>t = 0\<close>.\<close>

definition run ::
  "'g random \<Rightarrow> (real list \<Rightarrow> real) \<Rightarrow> real list \<Rightarrow> nat \<Rightarrow> nat \<Rightarrow> real \<Rightarrow> real \<Rightarrow> real \<Rightarrow> 'g
     \<Rightarrow> (exit \<times> nat \<times> 'g state) option"
where
  "run R J maxv n T alpha delta gamma g =
     (case init R n T g of
        None \<Rightarrow> None
      | Some s \<Rightarrow> loop R J maxv alpha delta gamma T 0 s)"

text \<open>The cell with the notebook's own values of the parameters.\<close>

definition notebook :: "'g random \<Rightarrow> 'g \<Rightarrow> (exit \<times> nat \<times> 'g state) option" where
  "notebook R g = run R one_max (replicate 10 1) 10 1000000 (1 / 100) 0 (9 / 10) g"

subsection \<open>What the arrays record\<close>

text \<open>All the arrays have \<open>T\<close> columns.\<close>

definition shape :: "nat \<Rightarrow> 'g state \<Rightarrow> bool" where
  "shape T s \<longleftrightarrow>
     length (w_0 s) = T \<and> length (delta_w0 s) = T \<and> length (e_0 s) = T
     \<and> length (p_arr s) = T \<and> length (r_arr s) = T \<and> length (r_bar s) = T
     \<and> length (rho s) = T \<and> length (y_arr s) = T"

text \<open>
  Column \<open>t\<close> of the arrays holds the quantities of iteration \<open>t\<close>, and column \<open>t + 1\<close> of the
  weights and of the baseline what that iteration computed from them; \<open>gs t\<close> is the state
  of the generator before iteration \<open>t\<close> and \<open>gs (t + 1)\<close> its state after the draws of that
  iteration.
\<close>

definition recorded ::
  "'g random \<Rightarrow> (real list \<Rightarrow> real) \<Rightarrow> real \<Rightarrow> real \<Rightarrow> real \<Rightarrow> nat \<Rightarrow> 'g state
     \<Rightarrow> (nat \<Rightarrow> 'g) \<Rightarrow> nat \<Rightarrow> bool"
where
  "recorded R J alpha delta gamma n s gs t \<longleftrightarrow>
     length (w_0 s ! t) = n \<and> length (w_0 s ! (t + 1)) = n \<and> length (y_arr s ! t) = n
     \<and> p_arr s ! t = map sigmoid (w_0 s ! t)
     \<and> (y_arr s ! t, gs (t + 1)) = binomial_vec (binomial1 R) (p_arr s ! t) (gs t)
     \<and> e_0 s ! t = map2 (-) (y_arr s ! t) (p_arr s ! t)
     \<and> r_arr s ! t = J (y_arr s ! t)
     \<and> r_bar s ! (t + 1) = gamma * r_bar s ! t + (1 - gamma) * r_arr s ! t
     \<and> delta_w0 s ! t =
         map2 (-) (map (\<lambda>e. alpha * r_arr s ! t * e) (e_0 s ! t))
                  (map (\<lambda>w. delta * w) (w_0 s ! t))
     \<and> w_0 s ! (t + 1) = map2 (+) (w_0 s ! t) (delta_w0 s ! t)"

subsection \<open>A worked example\<close>

text \<open>
  A scripted random source, for running the cell on a small input: the generator state
  counts the binomial draws, every initial weight is 0, the first binomial draw is 0 and
  every later one is 1. With two units and \<open>T = 3\<close> the samples are \<open>[0, 1]\<close> and then
  \<open>[1, 1]\<close>; \<open>start\<close> is the state after the initialisation and \<open>middle\<close> the state after the
  first iteration, with the objective \<open>one_max\<close> and the notebook's \<open>alpha\<close>, \<open>delta\<close> and
  \<open>gamma\<close>.
\<close>

definition scripted :: "nat random" where
  "scripted =
     \<lparr>randn = (\<lambda>g. (0, g)), binomial1 = (\<lambda>q g. (if g = 0 then 0 else 1, g + 1))\<rparr>"

definition start :: "nat state" where
  "start =
     \<lparr>w_0 = [[0, 0], [0, 0], [0, 0]], delta_w0 = [[0, 0], [0, 0], [0, 0]],
      e_0 = [[0, 0], [0, 0], [0, 0]], p_arr = [[0, 0], [0, 0], [0, 0]],
      r_arr = [0, 0, 0], r_bar = [0, 0, 0], rho = [0, 0, 0],
      y_arr = [[0, 0], [0, 0], [0, 0]], rng = 0\<rparr>"

definition middle :: "nat state" where
  "middle =
     \<lparr>w_0 = [[0, 0], [- sigmoid 0 / 10, (1 - sigmoid 0) / 10], [0, 0]],
      delta_w0 = [[- sigmoid 0 / 10, (1 - sigmoid 0) / 10], [0, 0], [0, 0]],
      e_0 = [[- sigmoid 0, 1 - sigmoid 0], [0, 0], [0, 0]],
      p_arr = [[sigmoid 0, sigmoid 0], [0, 0], [0, 0]],
      r_arr = [10, 0, 0], r_bar = [0, 1, 0], rho = [0, 0, 0],
      y_arr = [[0, 1], [0, 0], [0, 0]], rng = 2\<rparr>"

section \<open>The objective functions\<close>

subsection \<open>Sums over bit vectors\<close>

lemma sum_list_bitvec: "bitvec u \<Longrightarrow> sum_list u = real (ones u)"
  by (induction u) (auto simp: bitvec_def ones_def)

lemma ones_le_length: "ones u \<le> length u"
  by (simp add: ones_def count_le_length)

lemma length_flip: "length (flip u) = length u"
  by (simp add: flip_def)

lemma sum_list_flip: "sum_list (flip u) = real (length u) - sum_list u"
  by (induction u) (auto simp: flip_def)

lemma sum_list_replicate_real: "sum_list (replicate n (c::real)) = real n * c"
  by (induction n) (auto simp: algebra_simps)

lemma two_max_bitvec:
  "bitvec u \<Longrightarrow> two_max u = \<bar>18 * real (ones u) - 8 * real (length u)\<bar>"
  by (simp add: two_max_def sum_list_bitvec)

subsection \<open>two_max\<close>

lemma two_max_all_ones: "two_max (replicate n 1) = 10 * real n"
  by (simp add: two_max_def sum_list_replicate_real)

lemma two_max_all_zeros: "two_max (replicate n 0) = 8 * real n"
  by (simp add: two_max_def sum_list_replicate_real)

text \<open>
  C1. The claim: for every bit vector \<open>u\<close> of length \<open>n\<close>, \<open>two_max\<close> returns
  \<open>18 * |18 * (number of ones in u) - 8 * n|\<close>, as the docstring of the function says.
  The code returns the absolute value without the factor 18: on the one-bit vector \<open>[1]\<close> it
  returns 10, where the claimed formula gives 180.
\<close>

theorem two_max_misses_factor:
  "bitvec [1] \<and> two_max [1] = 10
   \<and> two_max [1] \<noteq> 18 * \<bar>18 * real (ones [1]) - 8 * real (length [1::real])\<bar>"
  by (simp add: two_max_def ones_def bitvec_def)

text \<open>
  C5, as claimed: for even \<open>n\<close>, \<open>two_max\<close> is invariant under flipping every bit, and the
  vectors of \<open>n\<close> ones and of \<open>n\<close> zeros both attain the maximal value \<open>18 * 8n\<close>. This
  fails at \<open>n = 2\<close>: flipping \<open>[1, 1]\<close> changes the value, the two vectors have different
  values, and neither value is \<open>18 * 8 * 2\<close>.
\<close>

theorem two_max_flip_counterexample:
  "bitvec [1, 1] \<and> even (length [1, 1 :: real])
   \<and> two_max (flip [1, 1]) \<noteq> two_max [1, 1]
   \<and> two_max (replicate 2 1) \<noteq> two_max (replicate 2 0)
   \<and> two_max (replicate 2 1) \<noteq> 18 * (8 * 2)
   \<and> two_max (replicate 2 0) \<noteq> 18 * (8 * 2)"
  by (simp add: two_max_def flip_def bitvec_def numeral_2_eq_2)

text \<open>
  C5, amended: for every bit vector \<open>u\<close> of length \<open>n\<close>, the value of \<open>two_max\<close> at \<open>u\<close> is at
  most its value at the vector of \<open>n\<close> ones, which is the maximum; the value at the vector
  of \<open>n\<close> zeros is four fifths of that maximum; and for \<open>n > 0\<close>, flipping every bit of \<open>u\<close>
  keeps the value exactly when half of the bits of \<open>u\<close> are ones.
\<close>

theorem two_max_two_peaks:
  assumes "bitvec u"
  shows "two_max u \<le> two_max (replicate (length u) 1)
         \<and> 5 * two_max (replicate (length u) 0) = 4 * two_max (replicate (length u) 1)
         \<and> (0 < length u \<longrightarrow>
              (two_max (flip u) = two_max u \<longleftrightarrow> 2 * ones u = length u))"
proof (intro conjI impI)
  have s: "sum_list u = real (ones u)"
    using assms by (rule sum_list_bitvec)
  have le: "real (ones u) \<le> real (length u)"
    using ones_le_length[of u] by simp
  show "two_max u \<le> two_max (replicate (length u) 1)"
    using le by (simp add: two_max_def s sum_list_replicate_real)
  show "5 * two_max (replicate (length u) 0) = 4 * two_max (replicate (length u) 1)"
    by (simp add: two_max_def sum_list_replicate_real)
  assume "0 < length u"
  then have pos: "0 < real (length u)"
    by simp
  have iff: "(2 * ones u = length u) = (2 * real (ones u) = real (length u))"
    by (metis of_nat_eq_iff of_nat_mult of_nat_numeral)
  have "(\<bar>18 * (real (length u) - real (ones u)) - 8 * real (length u)\<bar>
          = \<bar>18 * real (ones u) - 8 * real (length u)\<bar>)
        = (2 * real (ones u) = real (length u))"
    using pos by argo
  then show "two_max (flip u) = two_max u \<longleftrightarrow> 2 * ones u = length u"
    unfolding iff by (simp only: two_max_def sum_list_flip s length_flip)
qed

theorem two_max_two_peaks_witness:
  "bitvec [1, 0] \<and> two_max [1, 0] \<le> two_max [1, 1]
   \<and> 5 * two_max [0, 0] = 4 * two_max [1, 1]
   \<and> two_max (flip [1, 0]) = two_max [1, 0]"
proof -
  have b: "bitvec [1, 0]"
    by (simp add: bitvec_def)
  show ?thesis
    using b two_max_two_peaks [OF b] by (simp add: ones_def numeral_2_eq_2)
qed

subsection \<open>sigmoid\<close>

lemma sigmoid_0: "sigmoid 0 = 1 / 2"
  by (simp add: sigmoid_def)

subsection \<open>sigmoid on 64-bit floats: rounding\<close>

lemma round_even_bounds: "\<lfloor>r\<rfloor> \<le> round_even r \<and> round_even r \<le> \<lfloor>r\<rfloor> + 1"
  by (simp add: round_even_def Let_def)

lemma round_even_of_int: "round_even (of_int k) = k"
  by (simp add: round_even_def)

lemma round_even_mono:
  assumes "r \<le> r'"
  shows "round_even r \<le> round_even r'"
proof (cases "\<lfloor>r\<rfloor> = \<lfloor>r'\<rfloor>")
  case True
  then have "r - of_int \<lfloor>r\<rfloor> \<le> r' - of_int \<lfloor>r'\<rfloor>"
    using assms by simp
  then show ?thesis
    using True by (auto simp: round_even_def Let_def)
next
  case False
  then have "\<lfloor>r\<rfloor> < \<lfloor>r'\<rfloor>"
    using floor_mono[OF assms] by simp
  then have "round_even r \<le> \<lfloor>r'\<rfloor>"
    using round_even_bounds[of r] by simp
  then show ?thesis
    using round_even_bounds[of r'] by simp
qed

lemma round_even_near:
  assumes "0 \<le> d" and "d \<le> 1 / 2" and "even m"
  shows "round_even (of_int m + d) = m"
proof -
  have f: "\<lfloor>of_int m + d\<rfloor> = m"
    using assms by (intro floor_unique) simp_all
  show ?thesis
    using assms by (simp add: round_even_def Let_def f)
qed

subsection \<open>Binades\<close>

lemma floor_log_bounds:
  assumes "0 < x"
  shows "2 powr of_int \<lfloor>log 2 x\<rfloor> \<le> x" and "x < 2 powr (of_int \<lfloor>log 2 x\<rfloor> + 1)"
proof -
  have "2 powr of_int \<lfloor>log 2 x\<rfloor> \<le> 2 powr log 2 x"
    by (intro powr_mono) simp_all
  then show "2 powr of_int \<lfloor>log 2 x\<rfloor> \<le> x"
    using assms by simp
  have "log 2 x < of_int \<lfloor>log 2 x\<rfloor> + 1"
    by linarith
  then have "2 powr log 2 x < 2 powr (of_int \<lfloor>log 2 x\<rfloor> + 1)"
    by (intro powr_less_mono) simp_all
  then show "x < 2 powr (of_int \<lfloor>log 2 x\<rfloor> + 1)"
    using assms by simp
qed

lemma floor_log_eq:
  assumes "2 powr of_int k \<le> x" and "x < 2 powr (of_int k + 1)"
  shows "\<lfloor>log 2 x\<rfloor> = k"
proof -
  have pos: "0 < x"
    using assms(1) by (smt (verit) powr_gt_zero)
  have "of_int k \<le> log 2 x"
    using assms(1) pos by (simp add: le_log_iff)
  moreover have "log 2 x < of_int k + 1"
    using assms(2) pos by (simp add: log_less_iff)
  ultimately show ?thesis
    by (intro floor_unique)
qed

lemma ulp_exponent_mono:
  assumes "0 < x" and "x \<le> y"
  shows "ulp_exponent x \<le> ulp_exponent y"
proof -
  have "log 2 x \<le> log 2 y"
    using assms by (intro log_mono) simp_all
  then have "\<lfloor>log 2 x\<rfloor> \<le> \<lfloor>log 2 y\<rfloor>"
    by (rule floor_mono)
  then show ?thesis
    using assms by (simp add: ulp_exponent_def)
qed

lemma ulp_exponent_binade:
  assumes "2 powr of_int k \<le> x" and "x < 2 powr (of_int k + 1)" and "- 1022 \<le> k"
  shows "ulp_exponent x = k - 52"
proof -
  have pos: "0 < x"
    using assms(1) by (smt (verit) powr_gt_zero)
  show ?thesis
    using floor_log_eq[OF assms(1,2)] pos assms(3) by (simp add: ulp_exponent_def)
qed

subsection \<open>Rounding to the nearest double\<close>

lemma nearest_nonneg: "0 \<le> x \<Longrightarrow> 0 \<le> nearest x"
proof -
  assume x: "0 \<le> x"
  have "0 \<le> x / 2 powr of_int (ulp_exponent x)"
    using x by simp
  then have "0 \<le> \<lfloor>x / 2 powr of_int (ulp_exponent x)\<rfloor>"
    by simp
  then have "0 \<le> round_even (x / 2 powr of_int (ulp_exponent x))"
    using round_even_bounds[of "x / 2 powr of_int (ulp_exponent x)"] by linarith
  then show ?thesis
    by (simp add: nearest_def)
qed

lemma nearest_upper:
  assumes "0 < x"
  shows "nearest x \<le> 2 powr (of_int (ulp_exponent x) + 53)"
proof -
  let ?e = "ulp_exponent x"
  have "\<lfloor>log 2 x\<rfloor> - 52 \<le> ?e"
    using assms by (simp add: ulp_exponent_def)
  then have "of_int \<lfloor>log 2 x\<rfloor> + 1 \<le> (of_int ?e + 53 :: real)"
    by linarith
  then have "2 powr (of_int \<lfloor>log 2 x\<rfloor> + 1) \<le> (2::real) powr (of_int ?e + 53)"
    by (intro powr_mono) simp_all
  then have "x \<le> 2 powr (of_int ?e + 53)"
    using floor_log_bounds(2)[OF assms] by linarith
  then have "x / 2 powr of_int ?e \<le> 2 powr (of_int ?e + 53) / 2 powr of_int ?e"
    by (intro divide_right_mono) simp_all
  also have "\<dots> = of_int (2 ^ 53)"
    by (simp add: powr_add)
  finally have "round_even (x / 2 powr of_int ?e) \<le> 2 ^ 53"
    using round_even_mono round_even_of_int by metis
  then have "(of_int (round_even (x / 2 powr of_int ?e)) :: real) \<le> of_int (2 ^ 53)"
    by (simp only: of_int_le_iff)
  then have "of_int (round_even (x / 2 powr of_int ?e)) * (2::real) powr of_int ?e
      \<le> of_int (2 ^ 53) * (2::real) powr of_int ?e"
    by (intro mult_right_mono) simp_all
  also have "\<dots> = 2 powr (of_int ?e + 53)"
    by (simp add: powr_add)
  finally show ?thesis
    using assms by (simp add: nearest_def)
qed

lemma nearest_lower:
  assumes "0 < x" and "- 1074 < ulp_exponent x"
  shows "2 powr (of_int (ulp_exponent x) + 52) \<le> nearest x"
proof -
  let ?e = "ulp_exponent x"
  have "?e = \<lfloor>log 2 x\<rfloor> - 52"
    using assms by (simp add: ulp_exponent_def max_def split: if_splits)
  then have "(of_int ?e + 52 :: real) = of_int \<lfloor>log 2 x\<rfloor>"
    by simp
  then have "2 powr (of_int ?e + 52) \<le> x"
    using floor_log_bounds(1)[OF assms(1)] by simp
  then have "2 powr (of_int ?e + 52) / 2 powr of_int ?e \<le> x / 2 powr of_int ?e"
    by (intro divide_right_mono) simp_all
  moreover have "2 powr (of_int ?e + 52) / 2 powr of_int ?e = (of_int (2 ^ 52) :: real)"
    by (simp add: powr_add)
  ultimately have "of_int (2 ^ 52) \<le> x / 2 powr of_int ?e"
    by simp
  then have "2 ^ 52 \<le> round_even (x / 2 powr of_int ?e)"
    using round_even_mono round_even_of_int by metis
  then have "(of_int (2 ^ 52) :: real) \<le> of_int (round_even (x / 2 powr of_int ?e))"
    by (simp only: of_int_le_iff)
  then have "of_int (2 ^ 52) * (2::real) powr of_int ?e
      \<le> of_int (round_even (x / 2 powr of_int ?e)) * (2::real) powr of_int ?e"
    by (intro mult_right_mono) simp_all
  moreover have "of_int (2 ^ 52) * (2::real) powr of_int ?e = 2 powr (of_int ?e + 52)"
    by (simp add: powr_add)
  ultimately have "2 powr (of_int ?e + 52)
      \<le> of_int (round_even (x / 2 powr of_int ?e)) * (2::real) powr of_int ?e"
    by linarith
  moreover have "nearest x = of_int (round_even (x / 2 powr of_int ?e)) * 2 powr of_int ?e"
    using assms(1) by (simp add: nearest_def)
  ultimately show ?thesis
    by linarith
qed

lemma nearest_mono_pos:
  assumes "0 < x" and "x \<le> y"
  shows "nearest x \<le> nearest y"
proof (cases "ulp_exponent x = ulp_exponent y")
  case True
  have "x / 2 powr of_int (ulp_exponent y) \<le> y / 2 powr of_int (ulp_exponent y)"
    using assms by (intro divide_right_mono) simp_all
  then have "round_even (x / 2 powr of_int (ulp_exponent y))
      \<le> round_even (y / 2 powr of_int (ulp_exponent y))"
    by (rule round_even_mono)
  then have "(of_int (round_even (x / 2 powr of_int (ulp_exponent y))) :: real)
      \<le> of_int (round_even (y / 2 powr of_int (ulp_exponent y)))"
    by (simp only: of_int_le_iff)
  then have "of_int (round_even (x / 2 powr of_int (ulp_exponent y))) * (2::real) powr of_int (ulp_exponent y)
      \<le> of_int (round_even (y / 2 powr of_int (ulp_exponent y))) * (2::real) powr of_int (ulp_exponent y)"
    by (intro mult_right_mono) simp_all
  then show ?thesis
    using assms True by (simp add: nearest_def)
next
  case False
  then have lt: "ulp_exponent x < ulp_exponent y"
    using ulp_exponent_mono[OF assms] by simp
  have y: "0 < y"
    using assms by simp
  have "- 1074 \<le> ulp_exponent x"
    by (simp add: ulp_exponent_def)
  then have "- 1074 < ulp_exponent y"
    using lt by simp
  then have low: "2 powr (of_int (ulp_exponent y) + 52) \<le> nearest y"
    using nearest_lower[OF y] by simp
  have "(of_int (ulp_exponent x) + 53 :: real) \<le> of_int (ulp_exponent y) + 52"
    using lt by linarith
  then have "2 powr (of_int (ulp_exponent x) + 53) \<le> (2::real) powr (of_int (ulp_exponent y) + 52)"
    by (intro powr_mono) simp_all
  then show ?thesis
    using nearest_upper[OF assms(1)] low by linarith
qed

lemma nearest_mono:
  assumes "0 \<le> x" and "x \<le> y"
  shows "nearest x \<le> nearest y"
proof (cases "x = 0")
  case True
  then show ?thesis
    using nearest_nonneg[of y] assms by (simp add: nearest_def)
next
  case False
  then show ?thesis
    using nearest_mono_pos[of x y] assms by simp
qed

lemma nearest_power_of_2:
  assumes "- 1022 \<le> k"
  shows "nearest (2 powr of_int k) = 2 powr of_int k"
proof -
  have "(2::real) powr of_int k < 2 powr (of_int k + 1)"
    by (intro powr_less_mono) simp_all
  then have e: "ulp_exponent (2 powr of_int k) = k - 52"
    using assms by (intro ulp_exponent_binade) simp_all
  have "2 powr of_int k / 2 powr of_int (k - 52) = (of_int (2 ^ 52) :: real)"
    by (simp add: powr_diff [symmetric])
  then have "round_even (2 powr of_int k / 2 powr of_int (k - 52)) = 2 ^ 52"
    by (simp only: round_even_of_int)
  moreover have "of_int (2 ^ 52) * (2::real) powr of_int (k - 52) = (2::real) powr of_int k"
    by (simp add: powr_diff)
  ultimately show ?thesis
    by (simp add: nearest_def e)
qed

subsection \<open>sigmoid on 64-bit floats: the value computed\<close>

lemma nearest_1: "nearest 1 = 1"
  using nearest_power_of_2[of 0] by simp

lemma nearest_2: "nearest 2 = 2"
  using nearest_power_of_2[of 1] by simp

lemma nearest_half: "nearest (1 / 2) = 1 / 2"
  using nearest_power_of_2[of "- 1"] by (simp add: powr_minus_divide)

lemma nearest_huge: "nearest (2 ^ 1024) = 2 ^ 1024"
  using nearest_power_of_2[of 1024] by simp

lemma nearest_tiny: "nearest (2 powr - 53) = 2 powr - 53"
  using nearest_power_of_2[of "- 53"] by simp

lemma nearest_one_plus:
  assumes "0 \<le> e" and "e \<le> 2 powr - 53"
  shows "nearest (1 + e) = 1"
proof -
  have small: "2 powr - 53 < (1::real)"
    by (simp add: powr_minus_divide)
  have "2 powr of_int 0 \<le> 1 + e" and "1 + e < 2 powr (of_int 0 + 1)"
    using assms small by simp_all
  then have ex: "ulp_exponent (1 + e) = - 52"
    using ulp_exponent_binade[of 0 "1 + e"] by simp
  have "(1 + e) / 2 powr of_int (- 52) = of_int (2 ^ 52) + e * 2 ^ 52"
    by (simp add: powr_minus_divide algebra_simps)
  moreover have "0 \<le> e * 2 ^ 52"
    using assms by simp
  moreover have "e * 2 ^ 52 \<le> 1 / 2"
  proof -
    have "e * 2 ^ 52 \<le> 2 powr - 53 * 2 ^ 52"
      using assms by (intro mult_right_mono) simp_all
    also have "\<dots> = 1 / 2"
      by (simp add: powr_minus_divide)
    finally show ?thesis .
  qed
  moreover have "even (2 ^ 52 :: int)"
    by simp
  ultimately have "round_even ((1 + e) / 2 powr of_int (- 52)) = 2 ^ 52"
    using round_even_near[of "e * 2 ^ 52" "2 ^ 52"] by simp
  moreover have "1 + e \<noteq> 0"
    using assms by simp
  ultimately show ?thesis
    by (simp add: nearest_def ex powr_minus_divide)
qed

lemma sigmoid64_cases:
  "sigmoid64 x =
     (if 2 ^ 1024 \<le> nearest (exp (- x)) then Finite 0
      else if 2 ^ 1024 \<le> nearest (1 + nearest (exp (- x))) then Finite 0
      else Finite (nearest (1 / nearest (1 + nearest (exp (- x))))))"
proof -
  let ?a = "nearest (exp (- x))"
  let ?s = "nearest (1 + ?a)"
  have a: "0 \<le> ?a"
    by (intro nearest_nonneg) simp
  have s: "1 \<le> ?s"
    using nearest_mono[of 1 "1 + ?a"] a by (simp add: nearest_1)
  have "0 \<le> 1 / ?s" and "1 / ?s \<le> 1"
    using s by simp_all
  then have q: "0 \<le> nearest (1 / ?s)" "nearest (1 / ?s) \<le> 1"
    using nearest_nonneg[of "1 / ?s"] nearest_mono[of "1 / ?s" 1] by (simp_all add: nearest_1)
  show ?thesis
  proof (cases "2 ^ 1024 \<le> ?a")
    case True
    then show ?thesis
      by (simp add: sigmoid64_def exp64_def round64_def)
  next
    case False
    then have e: "exp64 (- x) = Finite ?a"
      using a by (simp add: exp64_def round64_def)
    show ?thesis
    proof (cases "2 ^ 1024 \<le> ?s")
      case True
      then show ?thesis
        using False by (simp add: sigmoid64_def e round64_def)
    next
      case False
      then have "add64 1 (Finite ?a) = Finite ?s"
        using s by (simp add: round64_def)
      moreover have "?s \<noteq> 0"
        using s by simp
      moreover have "round64 (1 / ?s) = Finite (nearest (1 / ?s))"
        using q by (simp add: round64_def)
      ultimately show ?thesis
        using False \<open>\<not> 2 ^ 1024 \<le> ?a\<close> by (simp add: sigmoid64_def e)
    qed
  qed
qed

lemma sigmoid64_bounds: "\<exists>v. sigmoid64 x = Finite v \<and> 0 \<le> v \<and> v \<le> 1"
proof -
  let ?a = "nearest (exp (- x))"
  let ?s = "nearest (1 + ?a)"
  have a: "0 \<le> ?a"
    by (intro nearest_nonneg) simp
  have s: "1 \<le> ?s"
    using nearest_mono[of 1 "1 + ?a"] a by (simp add: nearest_1)
  have "0 \<le> 1 / ?s" and "1 / ?s \<le> 1"
    using s by simp_all
  then have "0 \<le> nearest (1 / ?s)" "nearest (1 / ?s) \<le> 1"
    using nearest_nonneg[of "1 / ?s"] nearest_mono[of "1 / ?s" 1] by (simp_all add: nearest_1)
  then show ?thesis
    by (simp add: sigmoid64_cases)
qed

lemma sigmoid64_mono:
  assumes "x \<le> y"
  shows "\<exists>a b. sigmoid64 x = Finite a \<and> sigmoid64 y = Finite b \<and> a \<le> b"
proof -
  let ?a = "\<lambda>x. nearest (exp (- x))"
  let ?s = "\<lambda>x. nearest (1 + ?a x)"
  obtain b where b: "sigmoid64 y = Finite b" "0 \<le> b"
    using sigmoid64_bounds by blast
  have a: "0 \<le> ?a y" "?a y \<le> ?a x"
    using assms by (simp_all add: nearest_nonneg nearest_mono)
  then have s: "?s y \<le> ?s x"
    by (intro nearest_mono) simp_all
  have s1: "1 \<le> ?s y"
    using nearest_mono[of 1 "1 + ?a y"] a by (simp add: nearest_1)
  show ?thesis
  proof (cases "2 ^ 1024 \<le> ?a x \<or> 2 ^ 1024 \<le> ?s x")
    case True
    then have "sigmoid64 x = Finite 0"
      by (auto simp: sigmoid64_cases)
    then show ?thesis
      using b by simp
  next
    case False
    then have fx: "sigmoid64 x = Finite (nearest (1 / ?s x))"
      by (simp add: sigmoid64_cases)
    have "\<not> 2 ^ 1024 \<le> ?a y" and "\<not> 2 ^ 1024 \<le> ?s y"
      using False a s by linarith+
    then have fy: "sigmoid64 y = Finite (nearest (1 / ?s y))"
      by (simp add: sigmoid64_cases)
    have "1 / ?s x \<le> 1 / ?s y"
      using s s1 by (intro divide_left_mono) (simp_all add: zero_less_mult_iff)
    moreover have "0 \<le> 1 / ?s x"
      using s s1 by simp
    ultimately have "nearest (1 / ?s x) \<le> nearest (1 / ?s y)"
      by (rule nearest_mono[rotated])
    then show ?thesis
      using fx fy by simp
  qed
qed

lemma sigmoid64_0: "sigmoid64 0 = Finite (1 / 2)"
  by (simp add: sigmoid64_cases nearest_1 nearest_2 nearest_half)

lemma sigmoid64_saturates:
  assumes "exp (- x) \<le> 2 powr - 53"
  shows "sigmoid64 x = Finite 1"
proof -
  let ?a = "nearest (exp (- x))"
  have a: "0 \<le> ?a"
    by (intro nearest_nonneg) simp
  have "?a \<le> 2 powr - 53"
    using nearest_mono[of "exp (- x)" "2 powr - 53"] assms by (simp add: nearest_tiny)
  then have s: "nearest (1 + ?a) = 1"
    using a by (intro nearest_one_plus)
  have "?a < 2 ^ 1024"
    using \<open>?a \<le> 2 powr - 53\<close> by (simp add: powr_minus_divide)
  then show ?thesis
    by (simp add: sigmoid64_cases s nearest_1)
qed

lemma sigmoid64_underflows:
  assumes "2 ^ 1024 \<le> exp (- x)"
  shows "sigmoid64 x = Finite 0"
proof -
  have "nearest (2 ^ 1024) \<le> nearest (exp (- x))"
    using assms by (intro nearest_mono) simp_all
  then have "2 ^ 1024 \<le> nearest (exp (- x))"
    unfolding nearest_huge .
  then show ?thesis
    unfolding sigmoid64_cases by (simp only: if_True)
qed

subsection \<open>sigmoid on 64-bit floats: saturation\<close>

lemma exp_37: "2 ^ 53 \<le> exp (37::real)"
proof -
  let ?y = "37 / 424 :: real"
  have "1 + ?y + ?y\<^sup>2 / 2 \<le> exp ?y"
    by (intro exp_lower_Taylor_quadratic) simp
  then have "(1 + ?y + ?y\<^sup>2 / 2) ^ 8 \<le> exp ?y ^ 8"
    by (intro power_mono) simp_all
  moreover have "(2::real) \<le> (1 + ?y + ?y\<^sup>2 / 2) ^ 8"
    by (simp add: power2_eq_square power_divide)
  ultimately have "2 \<le> exp ?y ^ 8"
    by linarith
  then have "2 ^ 53 \<le> (exp ?y ^ 8) ^ 53"
    by (intro power_mono) simp_all
  also have "\<dots> = exp ?y ^ 424"
    by (simp add: power_mult [symmetric])
  also have "\<dots> = exp (of_nat 424 * ?y)"
    by (simp only: exp_of_nat_mult)
  also have "of_nat 424 * ?y = 37"
    by simp
  finally show ?thesis .
qed

lemma exp_710: "2 ^ 1024 \<le> exp (710::real)"
proof -
  let ?y = "355 / 32768 :: real"
  have "1 + ?y + ?y\<^sup>2 / 2 \<le> exp ?y"
    by (intro exp_lower_Taylor_quadratic) simp
  then have "(1 + ?y + ?y\<^sup>2 / 2) ^ 64 \<le> exp ?y ^ 64"
    by (intro power_mono) simp_all
  moreover have "(2::real) \<le> (1 + ?y + ?y\<^sup>2 / 2) ^ 64"
    by (simp add: power2_eq_square power_divide)
  ultimately have "2 \<le> exp ?y ^ 64"
    by linarith
  then have "2 ^ 1024 \<le> (exp ?y ^ 64) ^ 1024"
    by (intro power_mono) simp_all
  also have "\<dots> = exp ?y ^ 65536"
    by (simp add: power_mult [symmetric])
  also have "\<dots> = exp (of_nat 65536 * ?y)"
    by (simp only: exp_of_nat_mult)
  also have "of_nat 65536 * ?y = 710"
    by simp
  finally show ?thesis .
qed

lemma exp_minus_large:
  assumes "37 \<le> (x::real)"
  shows "exp (- x) \<le> 2 powr - 53"
proof -
  have "exp (- x) \<le> exp (- 37)"
    using assms by simp
  also have "\<dots> = 1 / exp 37"
    by (simp add: exp_minus inverse_eq_divide)
  also have "\<dots> \<le> 1 / 2 ^ 53"
    using exp_37 by (intro divide_left_mono) simp_all
  also have "\<dots> = 2 powr - 53"
    by (simp add: powr_minus_divide)
  finally show ?thesis .
qed

text \<open>
  C9, as claimed: the logistic function is strictly increasing and its value lies strictly
  between 0 and 1 at every finite input. On 64-bit floats this fails: at \<open>x = 37\<close> the
  exponential is below \<open>2^(-53)\<close>, the sum \<open>1 + np.exp(-x)\<close> rounds to 1 and the value is
  exactly 1; the values at 40 and at 41 are equal; at \<open>x = -710\<close> the exponential overflows
  to infinity and the value is exactly 0.
\<close>

theorem sigmoid64_saturation_counterexample:
  "sigmoid64 37 = Finite 1 \<and> sigmoid64 40 = sigmoid64 41 \<and> sigmoid64 (- 710) = Finite 0"
proof -
  have "sigmoid64 37 = Finite 1" "sigmoid64 40 = Finite 1" "sigmoid64 41 = Finite 1"
    by (rule sigmoid64_saturates, rule exp_minus_large, simp)+
  moreover have "sigmoid64 (- 710) = Finite 0"
    using exp_710 by (intro sigmoid64_underflows) simp
  ultimately show ?thesis
    by simp
qed

text \<open>
  C9, amended: on 64-bit floats the logistic function takes the value \<open>1/2\<close> at 0, is
  monotonically non-decreasing, and its value is a finite number in the closed interval
  from 0 to 1 at every finite input.
\<close>

theorem sigmoid64_logistic:
  "sigmoid64 0 = Finite (1 / 2)
   \<and> (\<forall>x y. x \<le> y \<longrightarrow> (\<exists>a b. sigmoid64 x = Finite a \<and> sigmoid64 y = Finite b \<and> a \<le> b))
   \<and> (\<forall>x. \<exists>v. sigmoid64 x = Finite v \<and> 0 \<le> v \<and> v \<le> 1)"
  using sigmoid64_0 sigmoid64_mono sigmoid64_bounds by blast

theorem sigmoid64_logistic_witness:
  "(0::real) \<le> 37
   \<and> (\<exists>a b. sigmoid64 0 = Finite a \<and> sigmoid64 37 = Finite b \<and> a \<le> b
          \<and> a = 1 / 2 \<and> b = 1)"
proof -
  have h: "(0::real) \<le> 37"
    by simp
  from sigmoid64_logistic h obtain a b
    where ab: "sigmoid64 0 = Finite a" "sigmoid64 37 = Finite b" "a \<le> b"
      and z: "sigmoid64 0 = Finite (1 / 2)"
    by blast
  have "sigmoid64 37 = Finite 1"
    by (rule sigmoid64_saturates, rule exp_minus_large, simp)
  with ab z have "a = 1 / 2" and "b = 1"
    by simp_all
  with h ab show ?thesis
    by blast
qed

subsection \<open>plateaus\<close>

lemma range_4: "[0 ..< 4] = [0, 1, 2, 3]"
  by (simp add: upt_conv_Cons)

lemma plateaus_inner_returns:
  "\<forall>i\<in>set js. i < length u \<Longrightarrow> \<exists>v. plateaus_inner u js J_k = Inr v"
  by (induction js arbitrary: J_k) auto

lemma upper_le: "k < 4 \<Longrightarrow> upper k n \<le> n"
proof -
  assume "k < 4"
  then have "(k + 1) * n \<le> 4 * n"
    by (intro mult_le_mono1) simp
  then have "(k + 1) * n div 4 \<le> 4 * n div 4"
    by (rule div_le_mono)
  then show ?thesis
    by (simp add: upper_def)
qed

lemma plateaus_outer_returns:
  "\<forall>k\<in>set ks. k < 4 \<Longrightarrow> \<exists>v. plateaus_outer u ks J J_k = Inr v"
proof (induction ks arbitrary: J J_k)
  case Nil
  show ?case by simp
next
  case (Cons k ks)
  have "k < 4"
    using Cons.prems by simp
  then have "\<forall>i\<in>set [lower k (length u) ..< upper k (length u)]. i < length u"
    using upper_le[of k "length u"] by auto
  then obtain v
    where v: "plateaus_inner u [lower k (length u) ..< upper k (length u)] J_k = Inr v"
    using plateaus_inner_returns by blast
  show ?case
    using Cons.IH[of "J + v" v] Cons.prems by (simp add: v)
qed

text \<open>
  C6. When the length of the vector is not a multiple of 4, \<open>plateaus\<close> fails with the error
  of its assertion, whatever the entries of the vector are: the check comes before the loops
  and no product is computed. When the length is a multiple of 4 it returns a value.
\<close>

theorem plateaus_assertion:
  "(length u mod 4 \<noteq> 0 \<longrightarrow>
      plateaus u = Inl (AssertionError ''n must be a multiple of 4.''))
   \<and> (length u mod 4 = 0 \<longrightarrow> (\<exists>v. plateaus u = Inr v))"
  using plateaus_outer_returns[of "[0 ..< 4]" u 0 1] by (simp add: plateaus_def)

theorem plateaus_assertion_witness:
  "plateaus [1, 1, 1] = Inl (AssertionError ''n must be a multiple of 4.'')
   \<and> (\<exists>v. plateaus [1, 1, 1, 1] = Inr v)"
  using plateaus_assertion [of "[1, 1, 1]"] plateaus_assertion [of "[1, 1, 1, 1]"]
  by simp

text \<open>
  C10. For \<open>n = 4\<close> the range of the inner loop is empty for each of the four values of \<open>k\<close>,
  no entry of \<open>u\<close> is read, the product \<open>J_k\<close> stays at its seed 1 and is added four times:
  \<open>plateaus\<close> returns 4 for every vector \<open>u\<close> of length 4.
\<close>

theorem plateaus_4:
  "(\<forall>k\<in>set [0 ..< 4].
      [lower k 4 ..< upper k 4] = []
      \<and> plateaus_inner u [lower k 4 ..< upper k 4] 1 = Inr 1)
   \<and> (length u = 4 \<longrightarrow> plateaus u = Inr 4)"
  by (simp add: plateaus_def lower_def upper_def range_4)

theorem plateaus_4_witness:
  "length [0, 1, 0, 1 :: real] = 4 \<and> plateaus [0, 1, 0, 1] = Inr 4
   \<and> [lower 2 4 ..< upper 2 4] = []
   \<and> plateaus_inner [0, 1, 0, 1] [lower 2 4 ..< upper 2 4] 1 = Inr 1"
  using plateaus_4 [of "[0, 1, 0, 1]"] by (simp add: range_4)

text \<open>
  C2. The claim: each quartile has its own running product, seeded at 1, so that a zero
  inside one quartile removes that quartile's contribution only. In the code \<open>J_k\<close> is set
  to 1 once, before the loop over the quartiles, and carried from one quartile to the next.
  For \<open>n = 8\<close> the vector of ones gives the contributions 20, 400, 8000 and 160000 (the sums
  after two, three and four quartiles are 420, 8420 and 168420). A zero at index 5, inside
  the third quartile, leaves 420: the contributions of the third and of the fourth quartile
  are both lost, where the claim has the fourth unchanged and the value 160420.
\<close>

theorem plateaus_product_carried:
  "plateaus (replicate 8 1) = Inr 168420
   \<and> plateaus_outer (replicate 8 1) [0 ..< 3] 0 1 = Inr 8420
   \<and> plateaus_outer (replicate 8 1) [0 ..< 2] 0 1 = Inr 420
   \<and> bitvec [1, 1, 1, 1, 1, 0, 1, 1]
   \<and> plateaus [1, 1, 1, 1, 1, 0, 1, 1] = Inr 420
   \<and> plateaus [1, 1, 1, 1, 1, 0, 1, 1] \<noteq> Inr (168420 - 8000)"
  by code_simp

section \<open>The optimizer loop\<close>

subsection \<open>One iteration\<close>

lemma length_randn_vec: "length (fst (randn_vec f n g)) = n"
  by (induction n arbitrary: g) (simp_all add: Let_def case_prod_beta)

lemma length_binomial_vec: "length (fst (binomial_vec f qs g)) = length qs"
  by (induction qs arbitrary: g) (simp_all add: Let_def case_prod_beta)

lemma body_returns:
  assumes "shape T s" and "t + 1 < T"
  shows "\<exists>s'. body R J alpha delta gamma t s = Some s' \<and> shape T s'
     \<and> p_arr s' = (p_arr s)[t := map sigmoid (w_0 s ! t)]
     \<and> y_arr s' = (y_arr s)[t := fst (binomial_vec (binomial1 R) (map sigmoid (w_0 s ! t)) (rng s))]
     \<and> rng s' = snd (binomial_vec (binomial1 R) (map sigmoid (w_0 s ! t)) (rng s))
     \<and> e_0 s' = (e_0 s)[t := map2 (-) (y_arr s' ! t) (p_arr s' ! t)]
     \<and> r_arr s' = (r_arr s)[t := J (y_arr s' ! t)]
     \<and> r_bar s' = (r_bar s)[t + 1 := gamma * r_bar s ! t + (1 - gamma) * r_arr s' ! t]
     \<and> rho s' = (rho s)[t + 1 := r_arr s' ! (t + 1) - r_bar s' ! t]
     \<and> delta_w0 s' = (delta_w0 s)[t := map2 (-) (map (\<lambda>e. alpha * r_arr s' ! t * e) (e_0 s' ! t))
                  (map (\<lambda>w. delta * w) (w_0 s ! t))]
     \<and> w_0 s' = (w_0 s)[t + 1 := map2 (+) (w_0 s ! t) (delta_w0 s' ! t)]"
  using assms
  by (simp add: body_def rd_def wr_def shape_def Let_def split: prod.splits)

lemma init_returns:
  assumes "0 < T"
  shows "\<exists>s. init R n T g = Some s \<and> shape T s \<and> length (w_0 s ! 0) = n
     \<and> (w_0 s ! 0, rng s) = randn_vec (randn R) n g \<and> r_bar s ! 0 = 0"
  using assms length_randn_vec[of "randn R" n g]
  by (simp add: init_def rd_def wr_def shape_def Let_def case_prod_beta)

lemma recorded_body:
  assumes sh: "shape T s" and t: "t + 1 < T" and n: "length (w_0 s ! t) = n"
    and b: "body R J alpha delta gamma t s = Some s'"
    and g: "gs t = rng s" "gs (t + 1) = rng s'"
  shows "recorded R J alpha delta gamma n s' gs t"
proof -
  from body_returns[OF sh t, of R J alpha delta gamma] b
  have p: "p_arr s' = (p_arr s)[t := map sigmoid (w_0 s ! t)]"
    and y: "y_arr s' = (y_arr s)[t := fst (binomial_vec (binomial1 R) (map sigmoid (w_0 s ! t)) (rng s))]"
    and rg: "rng s' = snd (binomial_vec (binomial1 R) (map sigmoid (w_0 s ! t)) (rng s))"
    and e: "e_0 s' = (e_0 s)[t := map2 (-) (y_arr s' ! t) (p_arr s' ! t)]"
    and r: "r_arr s' = (r_arr s)[t := J (y_arr s' ! t)]"
    and rb: "r_bar s' = (r_bar s)[t + 1 := gamma * r_bar s ! t + (1 - gamma) * r_arr s' ! t]"
    and dw: "delta_w0 s' = (delta_w0 s)[t := map2 (-) (map (\<lambda>e. alpha * r_arr s' ! t * e) (e_0 s' ! t))
                  (map (\<lambda>w. delta * w) (w_0 s ! t))]"
    and w: "w_0 s' = (w_0 s)[t + 1 := map2 (+) (w_0 s ! t) (delta_w0 s' ! t)]"
    by auto
  have len: "length (w_0 s) = T" "length (delta_w0 s) = T" "length (e_0 s) = T"
    "length (p_arr s) = T" "length (r_arr s) = T" "length (r_bar s) = T" "length (y_arr s) = T"
    using sh by (simp_all add: shape_def)
  have tT: "t < T" using t by simp
  have wt: "w_0 s' ! t = w_0 s ! t" by (simp add: w)
  have pt: "p_arr s' ! t = map sigmoid (w_0 s ! t)"
    by (simp add: p len tT)
  have yt: "y_arr s' ! t = fst (binomial_vec (binomial1 R) (map sigmoid (w_0 s ! t)) (rng s))"
    by (simp add: y len tT)
  have yl: "length (y_arr s' ! t) = n"
    by (simp add: yt length_binomial_vec n)
  have draw: "(y_arr s' ! t, gs (t + 1)) = binomial_vec (binomial1 R) (p_arr s' ! t) (gs t)"
    using g rg by (simp add: yt pt prod_eq_iff)
  have et: "e_0 s' ! t = map2 (-) (y_arr s' ! t) (p_arr s' ! t)"
    by (simp add: e len tT)
  have rt: "r_arr s' ! t = J (y_arr s' ! t)"
    by (simp add: r len tT)
  have rbt: "r_bar s' ! (t + 1) = gamma * r_bar s' ! t + (1 - gamma) * r_arr s' ! t"
    using t by (simp add: rb len)
  have dwt: "delta_w0 s' ! t = map2 (-) (map (\<lambda>e. alpha * r_arr s' ! t * e) (e_0 s' ! t))
                  (map (\<lambda>w. delta * w) (w_0 s ! t))"
    by (simp add: dw len tT)
  have wt1: "w_0 s' ! (t + 1) = map2 (+) (w_0 s ! t) (delta_w0 s' ! t)"
    using t by (simp add: w len)
  have "length (w_0 s' ! (t + 1)) = n"
    unfolding wt1 dwt et pt by (simp add: yl n)
  then show ?thesis
    unfolding recorded_def using wt yl pt draw et rt rbt dwt wt1 n by simp
qed

lemma recorded_frame:
  assumes sh: "shape T s" and t: "t + 1 < T" and t': "t' < t"
    and b: "body R J alpha delta gamma t s = Some s'"
    and rec: "recorded R J alpha delta gamma n s gs t'"
  shows "recorded R J alpha delta gamma n s' gs t' \<and> y_arr s' ! t' = y_arr s ! t'"
proof -
  from body_returns[OF sh t, of R J alpha delta gamma] b
  have p: "p_arr s' = (p_arr s)[t := map sigmoid (w_0 s ! t)]"
    and y: "y_arr s' = (y_arr s)[t := fst (binomial_vec (binomial1 R) (map sigmoid (w_0 s ! t)) (rng s))]"
    and e: "e_0 s' = (e_0 s)[t := map2 (-) (y_arr s' ! t) (p_arr s' ! t)]"
    and r: "r_arr s' = (r_arr s)[t := J (y_arr s' ! t)]"
    and rb: "r_bar s' = (r_bar s)[t + 1 := gamma * r_bar s ! t + (1 - gamma) * r_arr s' ! t]"
    and dw: "delta_w0 s' = (delta_w0 s)[t := map2 (-) (map (\<lambda>e. alpha * r_arr s' ! t * e) (e_0 s' ! t))
                  (map (\<lambda>w. delta * w) (w_0 s ! t))]"
    and w: "w_0 s' = (w_0 s)[t + 1 := map2 (+) (w_0 s ! t) (delta_w0 s' ! t)]"
    by auto
  have "p_arr s' ! t' = p_arr s ! t'" "y_arr s' ! t' = y_arr s ! t'" "e_0 s' ! t' = e_0 s ! t'"
    "r_arr s' ! t' = r_arr s ! t'" "r_bar s' ! t' = r_bar s ! t'" "r_bar s' ! (t' + 1) = r_bar s ! (t' + 1)"
    "delta_w0 s' ! t' = delta_w0 s ! t'" "w_0 s' ! t' = w_0 s ! t'" "w_0 s' ! (t' + 1) = w_0 s ! (t' + 1)"
    using t' by (simp_all add: p y e r rb dw w)
  then show ?thesis
    using rec unfolding recorded_def by simp
qed

lemma body_keeps_first:
  assumes "shape T s" and "t + 1 < T" and "body R J alpha delta gamma t s = Some s'"
  shows "w_0 s' ! 0 = w_0 s ! 0 \<and> r_bar s' ! 0 = r_bar s ! 0"
  using body_returns[OF assms(1,2), of R J alpha delta gamma] assms(3) by auto

lemma recorded_cong:
  assumes "recorded R J alpha delta gamma n s gs t" and "gs' t = gs t" and "gs' (t + 1) = gs (t + 1)"
  shows "recorded R J alpha delta gamma n s gs' t"
  using assms by (simp add: recorded_def)

subsection \<open>The history kept by the loop\<close>

lemma loop_history:
  assumes "shape T s" and "length (w_0 s ! t) = n"
    and "\<forall>t'<t. recorded R J alpha delta gamma n s gs t'"
    and "gs t = rng s"
    and "\<forall>t'<t. y_arr s ! t' \<noteq> maxv"
    and "t \<le> T - 1" and "0 < T"
  shows "\<exists>ex k s' gs'. loop R J maxv alpha delta gamma T t s = Some (ex, k, s')
     \<and> k \<le> T - 1
     \<and> (\<forall>j\<le>t. gs' j = gs j) \<and> gs' k = rng s'
     \<and> w_0 s' ! 0 = w_0 s ! 0 \<and> r_bar s' ! 0 = r_bar s ! 0
     \<and> (\<forall>t'<k. recorded R J alpha delta gamma n s' gs' t')
     \<and> (case ex of
           Exhausted \<Rightarrow> k = T - 1 \<and> (\<forall>t'<k. y_arr s' ! t' \<noteq> maxv)
         | Break \<Rightarrow> 0 < k \<and> y_arr s' ! (k - 1) = maxv \<and> (\<forall>t'<k - 1. y_arr s' ! t' \<noteq> maxv))"
  using assms
proof (induction R J maxv alpha delta gamma T t s arbitrary: gs rule: loop.induct)
  case (1 R J maxv alpha delta gamma T t s)
  note sh = "1.prems"(1) and len = "1.prems"(2) and rec = "1.prems"(3) and g = "1.prems"(4)
    and past0 = "1.prems"(5) and tle = "1.prems"(6) and T = "1.prems"(7)
  show ?case
  proof (cases "t < T - 1")
    case False
    then have "t = T - 1"
      using tle by simp
    moreover have "loop R J maxv alpha delta gamma T t s = Some (Exhausted, t, s)"
      using False by (simp add: loop.simps[of R J maxv alpha delta gamma T t s])
    ultimately show ?thesis
      using rec g past0 by auto
  next
    case True
    then have t1: "t + 1 < T"
      by simp
    from body_returns[OF sh t1, of R J alpha delta gamma]
    obtain s' where b: "body R J alpha delta gamma t s = Some s'" and sh': "shape T s'"
      by blast
    define gs1 where "gs1 = gs(t + 1 := rng s')"
    have gs1_low: "gs1 j = gs j" if "j \<le> t" for j
      using that by (simp add: gs1_def)
    have gs1_t: "gs1 t = rng s" and gs1_t1: "gs1 (t + 1) = rng s'"
      using g by (simp_all add: gs1_def)
    have now: "recorded R J alpha delta gamma n s' gs1 t"
      using recorded_body[OF sh t1 len b gs1_t gs1_t1] .
    then have len': "length (w_0 s' ! (t + 1)) = n"
      by (simp add: recorded_def)
    have old: "recorded R J alpha delta gamma n s' gs1 t' \<and> y_arr s' ! t' = y_arr s ! t'"
      if "t' < t" for t'
    proof -
      have "recorded R J alpha delta gamma n s' gs t' \<and> y_arr s' ! t' = y_arr s ! t'"
        using recorded_frame[OF sh t1 that b] rec that by blast
      moreover have "gs1 t' = gs t'" and "gs1 (t' + 1) = gs (t' + 1)"
        using that by (simp_all add: gs1_low)
      ultimately show ?thesis
        using recorded_cong by blast
    qed
    have rec': "\<forall>t'<t + 1. recorded R J alpha delta gamma n s' gs1 t'"
      using now old by (auto simp: less_Suc_eq)
    have past: "\<forall>t'<t. y_arr s' ! t' \<noteq> maxv"
      using old past0 by simp
    have first: "w_0 s' ! 0 = w_0 s ! 0" "r_bar s' ! 0 = r_bar s ! 0"
      using body_keeps_first[OF sh t1 b] by simp_all
    show ?thesis
    proof (cases "y_arr s' ! t = maxv")
      case yes: True
      have "loop R J maxv alpha delta gamma T t s = Some (Break, t + 1, s')"
        using True b yes by (simp add: loop.simps[of R J maxv alpha delta gamma T t s])
      moreover have "t + 1 \<le> T - 1"
        using t1 by simp
      moreover have "\<forall>j\<le>t. gs1 j = gs j"
        using gs1_low by simp
      ultimately show ?thesis
        using gs1_t1 first rec' past yes by (intro exI[of _ Break] exI[of _ "t + 1"] exI[of _ s'] exI[of _ gs1]) simp
    next
      case no: False
      have eq: "loop R J maxv alpha delta gamma T t s = loop R J maxv alpha delta gamma T (t + 1) s'"
        using True b no by (simp add: loop.simps[of R J maxv alpha delta gamma T t s])
      have past': "\<forall>t'<t + 1. y_arr s' ! t' \<noteq> maxv"
        using past no by (auto simp: less_Suc_eq)
      have tle': "t + 1 \<le> T - 1"
        using t1 by simp
      from "1.IH"[OF True b no sh' len' rec' gs1_t1 past' tle' T]
      obtain ex k s'' gs' where r: "loop R J maxv alpha delta gamma T (t + 1) s' = Some (ex, k, s'')"
        and k: "k \<le> T - 1"
        and low: "\<forall>j\<le>t + 1. gs' j = gs1 j" and last: "gs' k = rng s''"
        and f: "w_0 s'' ! 0 = w_0 s' ! 0" "r_bar s'' ! 0 = r_bar s' ! 0"
        and h: "\<forall>t'<k. recorded R J alpha delta gamma n s'' gs' t'"
        and c: "case ex of
           Exhausted \<Rightarrow> k = T - 1 \<and> (\<forall>t'<k. y_arr s'' ! t' \<noteq> maxv)
         | Break \<Rightarrow> 0 < k \<and> y_arr s'' ! (k - 1) = maxv \<and> (\<forall>t'<k - 1. y_arr s'' ! t' \<noteq> maxv)"
        by blast
      have "\<forall>j\<le>t. gs' j = gs j"
        using low gs1_low by simp
      then show ?thesis
        unfolding eq using r k last f first h c
        by (intro exI[of _ ex] exI[of _ k] exI[of _ s''] exI[of _ gs']) simp
    qed
  qed
qed

lemma run_history:
  assumes "0 < T"
  shows "\<exists>ex k s gs. run R J maxv n T alpha delta gamma g = Some (ex, k, s)
     \<and> k \<le> T - 1
     \<and> (w_0 s ! 0, gs 0) = randn_vec (randn R) n g \<and> gs k = rng s
     \<and> r_bar s ! 0 = 0
     \<and> (\<forall>t<k. recorded R J alpha delta gamma n s gs t)
     \<and> (case ex of
           Exhausted \<Rightarrow> k = T - 1 \<and> (\<forall>t<k. y_arr s ! t \<noteq> maxv)
         | Break \<Rightarrow> 0 < k \<and> y_arr s ! (k - 1) = maxv \<and> (\<forall>t<k - 1. y_arr s ! t \<noteq> maxv))"
proof -
  from init_returns[OF assms, of R n g]
  obtain s0 where i: "init R n T g = Some s0" and sh: "shape T s0"
    and len: "length (w_0 s0 ! 0) = n"
    and d: "(w_0 s0 ! 0, rng s0) = randn_vec (randn R) n g" and rb: "r_bar s0 ! 0 = 0"
    by blast
  have run: "run R J maxv n T alpha delta gamma g = loop R J maxv alpha delta gamma T 0 s0"
    by (simp add: run_def i)
  from loop_history[OF sh len, of R J alpha delta gamma "\<lambda>_. rng s0" maxv] assms
  obtain ex k s gs where r: "loop R J maxv alpha delta gamma T 0 s0 = Some (ex, k, s)"
    and k: "k \<le> T - 1"
    and low: "\<forall>j\<le>0. gs j = rng s0" and last: "gs k = rng s"
    and f: "w_0 s ! 0 = w_0 s0 ! 0" "r_bar s ! 0 = r_bar s0 ! 0"
    and h: "\<forall>t<k. recorded R J alpha delta gamma n s gs t"
    and c: "case ex of
           Exhausted \<Rightarrow> k = T - 1 \<and> (\<forall>t<k. y_arr s ! t \<noteq> maxv)
         | Break \<Rightarrow> 0 < k \<and> y_arr s ! (k - 1) = maxv \<and> (\<forall>t<k - 1. y_arr s ! t \<noteq> maxv)"
    by auto
  have "(w_0 s ! 0, gs 0) = randn_vec (randn R) n g"
    using low f d by simp
  then show ?thesis
    unfolding run using r k last f rb h c
    by (intro exI[of _ ex] exI[of _ k] exI[of _ s] exI[of _ gs]) simp
qed

text \<open>The cell as the notebook has it returns, after at most 999999 iterations.\<close>

lemma notebook_returns:
  "\<exists>ex k s. notebook R g = Some (ex, k, s) \<and> k \<le> 999999"
proof -
  have "(0::nat) < 1000000"
    by simp
  from run_history[OF this, of R one_max "replicate 10 1" 10 "1 / 100" 0 "9 / 10" g]
  obtain ex k s
    where "run R one_max (replicate 10 1) 10 1000000 (1 / 100) 0 (9 / 10) g = Some (ex, k, s)"
      and "k \<le> 1000000 - 1"
    by blast
  then show ?thesis
    unfolding notebook_def by auto
qed

subsection \<open>The array \<open>rho\<close> is written and never read\<close>

lemma body_rho:
  assumes "length x = length (rho s)"
  shows "body R J alpha delta gamma t (s\<lparr>rho := x\<rparr>)
     = map_option (\<lambda>s'. s'\<lparr>rho := x[t + 1 := r_arr s' ! (t + 1) - r_bar s' ! t]\<rparr>)
         (body R J alpha delta gamma t s)"
  using assms
  by (simp add: body_def rd_def wr_def Let_def split: prod.splits)

lemma rd_Some: "rd a t = Some v \<longleftrightarrow> t < length a \<and> v = a ! t"
  by (auto simp: rd_def)

lemma wr_Some: "wr a t v = Some a' \<longleftrightarrow> t < length a \<and> a' = a[t := v]"
  by (auto simp: wr_def)

lemma body_length_rho:
  "body R J alpha delta gamma t s = Some s' \<Longrightarrow> length (rho s') = length (rho s)"
  by (auto simp: body_def rd_Some wr_Some Let_def case_prod_beta bind_eq_Some_conv)

lemma loop_rho:
  assumes "length x = length (rho s)"
  shows "rel_option (\<lambda>(ex, k, a) (ex', k', a').
            ex = ex' \<and> k = k' \<and> (\<exists>x'. length x' = length (rho a') \<and> a = a'\<lparr>rho := x'\<rparr>))
          (loop R J maxv alpha delta gamma T t (s\<lparr>rho := x\<rparr>))
          (loop R J maxv alpha delta gamma T t s)"
  using assms
proof (induction R J maxv alpha delta gamma T t s arbitrary: x rule: loop.induct)
  case (1 R J maxv alpha delta gamma T t s)
  note split = loop.simps[of R J maxv alpha delta gamma T t s]
    loop.simps[of R J maxv alpha delta gamma T t "s\<lparr>rho := x\<rparr>"]
  show ?case
  proof (cases "t < T - 1")
    case False
    then show ?thesis
      using "1.prems" by (auto simp: split)
  next
    case True
    show ?thesis
    proof (cases "body R J alpha delta gamma t s")
      case None
      then show ?thesis
        using True body_rho[OF "1.prems", of R J alpha delta gamma t] by (simp add: split)
    next
      case (Some s')
      define x' where "x' = x[t + 1 := r_arr s' ! (t + 1) - r_bar s' ! t]"
      have b': "body R J alpha delta gamma t (s\<lparr>rho := x\<rparr>) = Some (s'\<lparr>rho := x'\<rparr>)"
        using body_rho[OF "1.prems", of R J alpha delta gamma t] Some by (simp add: x'_def)
      have len: "length x' = length (rho s')"
        using body_length_rho[OF Some] "1.prems" by (simp add: x'_def)
      show ?thesis
      proof (cases "y_arr s' ! t = maxv")
        case yes: True
        then show ?thesis
          using True Some b' len by (auto simp: split)
      next
        case no: False
        have "loop R J maxv alpha delta gamma T t s = loop R J maxv alpha delta gamma T (t + 1) s'"
          using True Some no by (simp add: split)
        moreover have "loop R J maxv alpha delta gamma T t (s\<lparr>rho := x\<rparr>)
            = loop R J maxv alpha delta gamma T (t + 1) (s'\<lparr>rho := x'\<rparr>)"
          using True b' no by (simp add: split)
        ultimately show ?thesis
          using "1.IH"[OF True Some no len] by simp
      qed
    qed
  qed
qed

lemma loop_rho_weights:
  assumes "length x = length (rho s)"
  shows "map_option (\<lambda>(ex, k, s'). (ex, k, w_0 s')) (loop R J maxv alpha delta gamma T t (s\<lparr>rho := x\<rparr>))
       = map_option (\<lambda>(ex, k, s'). (ex, k, w_0 s')) (loop R J maxv alpha delta gamma T t s)"
  using loop_rho[OF assms, of R J maxv alpha delta gamma T t]
  by (cases "loop R J maxv alpha delta gamma T t (s\<lparr>rho := x\<rparr>)";
      cases "loop R J maxv alpha delta gamma T t s") auto

lemma body_rho_value:
  "body R J alpha delta gamma t s = Some s' \<Longrightarrow> rho s' ! (t + 1) = r_arr s' ! (t + 1) - r_bar s' ! t"
  by (auto simp: body_def rd_Some wr_Some Let_def case_prod_beta bind_eq_Some_conv)

subsection \<open>The worked example, evaluated\<close>

lemma init_example: "init scripted 2 3 0 = Some start"
  by (simp add: init_def scripted_def start_def rd_def wr_def eval_nat_numeral Let_def)

lemma body_example_0:
  "body scripted one_max (1 / 100) 0 (9 / 10) 0 start = Some middle"
  by (simp add: body_def scripted_def start_def middle_def rd_def wr_def one_max_def Let_def)

lemma body_example_1:
  "\<exists>s. body scripted one_max (1 / 100) 0 (9 / 10) 1 middle = Some s
     \<and> y_arr s = [[0, 1], [1, 1], [0, 0]]"
  by (simp add: body_def scripted_def middle_def rd_def wr_def one_max_def Let_def numeral_2_eq_2)

lemma loop_example:
  "\<exists>s. loop scripted one_max maxv (1 / 100) 0 (9 / 10) 3 0 start
       = (if maxv = [0, 1] then Some (Break, 1, middle)
          else if maxv = [1, 1] then Some (Break, 2, s) else Some (Exhausted, 2, s))
     \<and> y_arr s = [[0, 1], [1, 1], [0, 0]]"
proof -
  obtain s where b: "body scripted one_max (1 / 100) 0 (9 / 10) 1 middle = Some s"
    and y: "y_arr s = [[0, 1], [1, 1], [0, 0]]"
    using body_example_1 by blast
  have 1: "loop scripted one_max maxv (1 / 100) 0 (9 / 10) 3 1 middle
      = (if maxv = [1, 1] then Some (Break, 2, s)
         else loop scripted one_max maxv (1 / 100) 0 (9 / 10) 3 2 s)"
    by (subst loop.simps) (auto simp add: b y simp del: One_nat_def)
  have 2: "loop scripted one_max maxv (1 / 100) 0 (9 / 10) 3 2 s = Some (Exhausted, 2, s)"
    by (subst loop.simps) simp
  have "loop scripted one_max maxv (1 / 100) 0 (9 / 10) 3 0 start
      = (if maxv = [0, 1] then Some (Break, 1, middle)
         else loop scripted one_max maxv (1 / 100) 0 (9 / 10) 3 1 middle)"
    by (subst loop.simps) (auto simp add: body_example_0 middle_def simp del: One_nat_def)
  then show ?thesis
    using 1 2 y by auto
qed

lemma run_example_break:
  "\<exists>s. run scripted one_max [1, 1] 2 3 (1 / 100) 0 (9 / 10) 0 = Some (Break, 2, s)"
  using loop_example[of "[1, 1]"] by (auto simp: run_def init_example)

lemma run_example_exhausted:
  "\<exists>s. run scripted one_max [0, 0] 2 3 (1 / 100) 0 (9 / 10) 0 = Some (Exhausted, 2, s)"
  using loop_example[of "[0, 0]"] by (auto simp: run_def init_example)

subsection \<open>The update rules\<close>

lemma recorded_unit:
  assumes "recorded R J alpha delta gamma n s gs t" and "i < n"
  shows "w_0 s ! (t + 1) ! i
       = w_0 s ! t ! i + alpha * r_arr s ! t * (y_arr s ! t ! i - p_arr s ! t ! i)
         - delta * w_0 s ! t ! i"
proof -
  from assms(1) have len: "length (w_0 s ! t) = n" "length (y_arr s ! t) = n"
    and p: "p_arr s ! t = map sigmoid (w_0 s ! t)"
    and e: "e_0 s ! t = map2 (-) (y_arr s ! t) (p_arr s ! t)"
    and dw: "delta_w0 s ! t =
         map2 (-) (map (\<lambda>e. alpha * r_arr s ! t * e) (e_0 s ! t))
                  (map (\<lambda>w. delta * w) (w_0 s ! t))"
    and w: "w_0 s ! (t + 1) = map2 (+) (w_0 s ! t) (delta_w0 s ! t)"
    by (simp_all add: recorded_def)
  have lp: "length (p_arr s ! t) = n"
    by (simp add: p len)
  have le: "length (e_0 s ! t) = n"
    by (simp add: e len lp)
  have ei: "e_0 s ! t ! i = y_arr s ! t ! i - p_arr s ! t ! i"
    using assms(2) by (simp add: e len lp)
  have dwi: "delta_w0 s ! t ! i = alpha * r_arr s ! t * (e_0 s ! t ! i) - delta * w_0 s ! t ! i"
    using assms(2) by (simp add: dw len le)
  have ldw: "length (delta_w0 s ! t) = n"
    by (simp add: dw len le)
  have "w_0 s ! (t + 1) ! i = w_0 s ! t ! i + delta_w0 s ! t ! i"
    using assms(2) w by (simp add: len ldw)
  then show ?thesis
    by (simp add: dwi ei)
qed

lemma recorded_vector:
  assumes "recorded R J alpha delta gamma n s gs t"
  shows "w_0 s ! (t + 1)
       = map2 (+) (w_0 s ! t)
           (map2 (-) (map (\<lambda>e. alpha * r_arr s ! t * e) (map2 (-) (y_arr s ! t) (p_arr s ! t)))
                     (map (\<lambda>w. delta * w) (w_0 s ! t)))"
  using assms by (simp add: recorded_def)

lemma run_stops:
  assumes "k \<le> T - 1"
    and "case ex of
           Exhausted \<Rightarrow> k = T - 1 \<and> (\<forall>t<k. y_arr s ! t \<noteq> maxv)
         | Break \<Rightarrow> 0 < k \<and> y_arr s ! (k - 1) = maxv \<and> (\<forall>t<k - 1. y_arr s ! t \<noteq> maxv)"
  shows "(\<forall>t<k - 1. y_arr s ! t \<noteq> maxv) \<and> (k < T - 1 \<longrightarrow> 0 < k \<and> y_arr s ! (k - 1) = maxv)"
  using assms by (cases ex) auto

lemma pair_list: "length xs = 2 \<Longrightarrow> xs ! 0 = a \<Longrightarrow> xs ! 1 = b \<Longrightarrow> xs = [a, b]"
  by (cases xs; cases "tl xs") auto

lemma scripted_randn: "randn_vec (randn scripted) 2 g = ([0, 0], g)"
  by (simp add: scripted_def numeral_2_eq_2)

lemma scripted_binomial:
  "binomial_vec (binomial1 scripted) [a, b] g = ([if g = 0 then 0 else 1, 1], g + 2)"
  by (simp add: scripted_def)

text \<open>
  C3. In every run with \<open>T > 0\<close> the initialisation and the loop return, after \<open>k\<close>
  iterations: all \<open>T - 1\<close> of them, or fewer when iteration \<open>k - 1\<close> is the first whose
  sample equals the known maximum. Column 0 of the weights is the initial draw from the
  generator, and for every iteration \<open>t < k\<close> the arrays hold what that iteration computed:
  \<open>p[t]\<close> is the logistic function of the weights \<open>w[t]\<close>; \<open>y[t]\<close> is the vector drawn with
  these probabilities from the generator in the state \<open>gs t\<close> that the draws before it left;
  \<open>r[t]\<close> is the objective at \<open>y[t]\<close>; and for every unit \<open>i\<close>,
  \<open>w[t+1][i] = w[t][i] + alpha * r[t] * (y[t][i] - p[t][i]) - delta * w[t][i]\<close>.
  An iteration assigns \<open>rho[t+1] = r[t+1] - r_bar[t]\<close> (reading column \<open>t + 1\<close> of \<open>r\<close> as it
  is then), and \<open>rho\<close> does not enter the weights: started with any other contents of
  \<open>rho\<close>, the loop ends the same way, after the same number of iterations, with the same
  array of weights.
\<close>

theorem weight_update:
  "(0 < T \<longrightarrow> (\<exists>ex k s gs. run R J maxv n T alpha delta gamma g = Some (ex, k, s)
       \<and> k \<le> T - 1 \<and> (\<forall>t<k - 1. y_arr s ! t \<noteq> maxv)
       \<and> (k < T - 1 \<longrightarrow> 0 < k \<and> y_arr s ! (k - 1) = maxv)
       \<and> (w_0 s ! 0, gs 0) = randn_vec (randn R) n g
       \<and> (\<forall>t\<le>k. length (w_0 s ! t) = n)
       \<and> (\<forall>t<k. p_arr s ! t = map sigmoid (w_0 s ! t)
            \<and> (y_arr s ! t, gs (t + 1)) = binomial_vec (binomial1 R) (p_arr s ! t) (gs t)
            \<and> r_arr s ! t = J (y_arr s ! t)
            \<and> (\<forall>i<n. w_0 s ! (t + 1) ! i
                 = w_0 s ! t ! i + alpha * r_arr s ! t * (y_arr s ! t ! i - p_arr s ! t ! i)
                   - delta * w_0 s ! t ! i))))
   \<and> (body R J alpha delta gamma t s = Some s' \<longrightarrow>
        rho s' ! (t + 1) = r_arr s' ! (t + 1) - r_bar s' ! t)
   \<and> (length x = length (rho s) \<longrightarrow>
        map_option (\<lambda>(ex, k, s'). (ex, k, w_0 s'))
          (loop R J maxv alpha delta gamma T t (s\<lparr>rho := x\<rparr>))
        = map_option (\<lambda>(ex, k, s'). (ex, k, w_0 s'))
          (loop R J maxv alpha delta gamma T t s))"
proof (intro conjI impI)
  assume "0 < T"
  from run_history[OF this, of R J maxv n alpha delta gamma g]
  obtain ex k s gs where r: "run R J maxv n T alpha delta gamma g = Some (ex, k, s)"
    and k: "k \<le> T - 1"
    and d: "(w_0 s ! 0, gs 0) = randn_vec (randn R) n g"
    and h: "\<forall>t<k. recorded R J alpha delta gamma n s gs t"
    and c: "case ex of
           Exhausted \<Rightarrow> k = T - 1 \<and> (\<forall>t<k. y_arr s ! t \<noteq> maxv)
         | Break \<Rightarrow> 0 < k \<and> y_arr s ! (k - 1) = maxv \<and> (\<forall>t<k - 1. y_arr s ! t \<noteq> maxv)"
    by blast
  note stop = run_stops[OF k c]
  have l0: "length (w_0 s ! 0) = n"
    using d length_randn_vec[of "randn R" n g] by (metis fst_conv)
  have len: "length (w_0 s ! t) = n" if "t \<le> k" for t
  proof (cases t)
    case 0
    then show ?thesis using l0 by simp
  next
    case (Suc j)
    then have "j < k" using that by simp
    then have "recorded R J alpha delta gamma n s gs j" using h by simp
    then show ?thesis using Suc by (simp add: recorded_def)
  qed
  have it: "p_arr s ! t = map sigmoid (w_0 s ! t)
            \<and> (y_arr s ! t, gs (t + 1)) = binomial_vec (binomial1 R) (p_arr s ! t) (gs t)
            \<and> r_arr s ! t = J (y_arr s ! t)
            \<and> (\<forall>i<n. w_0 s ! (t + 1) ! i
                 = w_0 s ! t ! i + alpha * r_arr s ! t * (y_arr s ! t ! i - p_arr s ! t ! i)
                   - delta * w_0 s ! t ! i)" if "t < k" for t
  proof -
    have rec: "recorded R J alpha delta gamma n s gs t"
      using h that by simp
    then have "p_arr s ! t = map sigmoid (w_0 s ! t)"
      and "(y_arr s ! t, gs (t + 1)) = binomial_vec (binomial1 R) (p_arr s ! t) (gs t)"
      and "r_arr s ! t = J (y_arr s ! t)"
      by (simp_all add: recorded_def)
    then show ?thesis
      using recorded_unit[OF rec] by blast
  qed
  show "\<exists>ex k s gs. run R J maxv n T alpha delta gamma g = Some (ex, k, s)
       \<and> k \<le> T - 1 \<and> (\<forall>t<k - 1. y_arr s ! t \<noteq> maxv)
       \<and> (k < T - 1 \<longrightarrow> 0 < k \<and> y_arr s ! (k - 1) = maxv)
       \<and> (w_0 s ! 0, gs 0) = randn_vec (randn R) n g
       \<and> (\<forall>t\<le>k. length (w_0 s ! t) = n)
       \<and> (\<forall>t<k. p_arr s ! t = map sigmoid (w_0 s ! t)
            \<and> (y_arr s ! t, gs (t + 1)) = binomial_vec (binomial1 R) (p_arr s ! t) (gs t)
            \<and> r_arr s ! t = J (y_arr s ! t)
            \<and> (\<forall>i<n. w_0 s ! (t + 1) ! i
                 = w_0 s ! t ! i + alpha * r_arr s ! t * (y_arr s ! t ! i - p_arr s ! t ! i)
                   - delta * w_0 s ! t ! i))"
    using r k stop d len it
    by (intro exI[of _ ex] exI[of _ k] exI[of _ s] exI[of _ gs]) simp
next
  assume "body R J alpha delta gamma t s = Some s'"
  then show "rho s' ! (t + 1) = r_arr s' ! (t + 1) - r_bar s' ! t"
    by (rule body_rho_value)
next
  assume "length x = length (rho s)"
  then show "map_option (\<lambda>(ex, k, s'). (ex, k, w_0 s'))
          (loop R J maxv alpha delta gamma T t (s\<lparr>rho := x\<rparr>))
        = map_option (\<lambda>(ex, k, s'). (ex, k, w_0 s'))
          (loop R J maxv alpha delta gamma T t s)"
    by (rule loop_rho_weights)
qed

theorem weight_update_witness:
  "(\<exists>s. run scripted one_max [1, 1] 2 3 (1 / 100) 0 (9 / 10) 0 = Some (Break, 2, s)
      \<and> w_0 s ! 0 = [0, 0] \<and> p_arr s ! 0 = [1 / 2, 1 / 2] \<and> y_arr s ! 0 = [0, 1]
      \<and> r_arr s ! 0 = 10 \<and> w_0 s ! 1 = [- 1 / 20, 1 / 20]
      \<and> p_arr s ! 1 = [sigmoid (- 1 / 20), sigmoid (1 / 20)] \<and> y_arr s ! 1 = [1, 1]
      \<and> r_arr s ! 1 = 20
      \<and> w_0 s ! 2 = [- 1 / 20 + (1 - sigmoid (- 1 / 20)) / 5, 1 / 20 + (1 - sigmoid (1 / 20)) / 5])
   \<and> rho middle ! 1 = r_arr middle ! 1 - r_bar middle ! 0
   \<and> map_option (\<lambda>(ex, k, s'). (ex, k, w_0 s'))
        (loop scripted one_max [1, 1] (1 / 100) 0 (9 / 10) 3 0 (start\<lparr>rho := [5, 5, 5]\<rparr>))
      = map_option (\<lambda>(ex, k, s'). (ex, k, w_0 s'))
        (loop scripted one_max [1, 1] (1 / 100) 0 (9 / 10) 3 0 start)"
proof -
  note th = weight_update[of 3 scripted one_max "[1, 1]" 2 "1 / 100" 0 "9 / 10" 0 0 start middle
      "[5, 5, 5]"]
  from th obtain ex k s gs
    where r: "run scripted one_max [1, 1] 2 3 (1 / 100) 0 (9 / 10) 0 = Some (ex, k, s)"
      and d: "(w_0 s ! 0, gs 0) = randn_vec (randn scripted) 2 0"
      and len: "\<forall>t\<le>k. length (w_0 s ! t) = 2"
      and u: "\<forall>t<k. p_arr s ! t = map sigmoid (w_0 s ! t)
            \<and> (y_arr s ! t, gs (t + 1)) = binomial_vec (binomial1 scripted) (p_arr s ! t) (gs t)
            \<and> r_arr s ! t = one_max (y_arr s ! t)
            \<and> (\<forall>i<2. w_0 s ! (t + 1) ! i
                 = w_0 s ! t ! i + 1 / 100 * r_arr s ! t * (y_arr s ! t ! i - p_arr s ! t ! i)
                   - 0 * w_0 s ! t ! i)"
    by auto
  from r run_example_break have ex: "ex = Break" and k: "k = Suc (Suc 0)"
    by auto
  have w0: "w_0 s ! 0 = [0, 0]" and g0: "gs 0 = 0"
    using d by (simp_all add: scripted_randn)
  have p0: "p_arr s ! 0 = [1 / 2, 1 / 2]"
    using u k by (simp add: w0 sigmoid_0)
  have "(y_arr s ! 0, gs (Suc 0)) = binomial_vec (binomial1 scripted) (p_arr s ! 0) (gs 0)"
    using u k by simp
  then have y0: "y_arr s ! 0 = [0, 1]" and g1: "gs (Suc 0) = 2"
    unfolding p0 g0 scripted_binomial by simp_all
  have r0: "r_arr s ! 0 = 10"
    using u k by (simp add: y0 one_max_def)
  have "length (w_0 s ! Suc 0) = 2"
    using len k by simp
  moreover have "w_0 s ! Suc 0 ! 0 = - 1 / 20" and "w_0 s ! Suc 0 ! 1 = 1 / 20"
    using u k by (simp_all add: w0 r0 y0 p0)
  ultimately have w1: "w_0 s ! Suc 0 = [- 1 / 20, 1 / 20]"
    by (rule pair_list)
  have p1: "p_arr s ! Suc 0 = [sigmoid (- 1 / 20), sigmoid (1 / 20)]"
    using u k by (simp add: w1)
  have "(y_arr s ! Suc 0, gs (Suc (Suc 0)))
      = binomial_vec (binomial1 scripted) (p_arr s ! Suc 0) (gs (Suc 0))"
    using u k by simp
  then have y1: "y_arr s ! Suc 0 = [1, 1]"
    unfolding p1 g1 scripted_binomial by simp
  have r1: "r_arr s ! Suc 0 = 20"
    using u k by (simp add: y1 one_max_def)
  have "length (w_0 s ! Suc (Suc 0)) = 2"
    using len k by simp
  moreover have "w_0 s ! Suc (Suc 0) ! 0 = - 1 / 20 + (1 - sigmoid (- 1 / 20)) / 5"
    and "w_0 s ! Suc (Suc 0) ! 1 = 1 / 20 + (1 - sigmoid (1 / 20)) / 5"
    using u k by (simp_all add: w1 r1 y1 p1)
  ultimately have w2: "w_0 s ! Suc (Suc 0)
      = [- 1 / 20 + (1 - sigmoid (- 1 / 20)) / 5, 1 / 20 + (1 - sigmoid (1 / 20)) / 5]"
    by (rule pair_list)
  have 1: "\<exists>s. run scripted one_max [1, 1] 2 3 (1 / 100) 0 (9 / 10) 0 = Some (Break, 2, s)
      \<and> w_0 s ! 0 = [0, 0] \<and> p_arr s ! 0 = [1 / 2, 1 / 2] \<and> y_arr s ! 0 = [0, 1]
      \<and> r_arr s ! 0 = 10 \<and> w_0 s ! 1 = [- 1 / 20, 1 / 20]
      \<and> p_arr s ! 1 = [sigmoid (- 1 / 20), sigmoid (1 / 20)] \<and> y_arr s ! 1 = [1, 1]
      \<and> r_arr s ! 1 = 20
      \<and> w_0 s ! 2 = [- 1 / 20 + (1 - sigmoid (- 1 / 20)) / 5, 1 / 20 + (1 - sigmoid (1 / 20)) / 5]"
    using r ex k w0 p0 y0 r0 w1 p1 y1 r1 w2 by (simp add: numeral_2_eq_2)
  have 2: "rho middle ! 1 = r_arr middle ! 1 - r_bar middle ! 0"
    using th body_example_0 by simp
  have "length [5, 5, 5 :: real] = length (rho start)"
    by (simp add: start_def)
  with th have 3: "map_option (\<lambda>(ex, k, s'). (ex, k, w_0 s'))
        (loop scripted one_max [1, 1] (1 / 100) 0 (9 / 10) 3 0 (start\<lparr>rho := [5, 5, 5]\<rparr>))
      = map_option (\<lambda>(ex, k, s'). (ex, k, w_0 s'))
        (loop scripted one_max [1, 1] (1 / 100) 0 (9 / 10) 3 0 start)"
    by blast
  from 1 2 3 show ?thesis
    by blast
qed

text \<open>
  C4. In every run with \<open>T > 0\<close> the initialisation and the loop return, after \<open>k\<close>
  iterations: all \<open>T - 1\<close> of them, or fewer when iteration \<open>k - 1\<close> is the first whose
  sample equals the known maximum. The baseline starts at \<open>r_bar[0] = 0\<close>, and for every
  iteration \<open>t < k\<close>, \<open>r_bar[t+1] = gamma * r_bar[t] + (1 - gamma) * r[t]\<close>, where \<open>r[t]\<close>
  is the objective at the sample \<open>y[t]\<close> drawn at iteration \<open>t\<close>: the vector drawn from the
  generator, in the state that the draws before it left, with the probabilities \<open>p[t]\<close>
  that the logistic function gives for the weights \<open>w[t]\<close>, themselves the initial draw
  updated by the iterations before \<open>t\<close>.
\<close>

theorem baseline_recurrence:
  "0 < T \<longrightarrow> (\<exists>ex k s gs. run R J maxv n T alpha delta gamma g = Some (ex, k, s)
       \<and> k \<le> T - 1 \<and> (\<forall>t<k - 1. y_arr s ! t \<noteq> maxv)
       \<and> (k < T - 1 \<longrightarrow> 0 < k \<and> y_arr s ! (k - 1) = maxv)
       \<and> (w_0 s ! 0, gs 0) = randn_vec (randn R) n g
       \<and> r_bar s ! 0 = 0
       \<and> (\<forall>t<k. p_arr s ! t = map sigmoid (w_0 s ! t)
            \<and> (y_arr s ! t, gs (t + 1)) = binomial_vec (binomial1 R) (p_arr s ! t) (gs t)
            \<and> r_arr s ! t = J (y_arr s ! t)
            \<and> r_bar s ! (t + 1) = gamma * r_bar s ! t + (1 - gamma) * r_arr s ! t
            \<and> w_0 s ! (t + 1)
                = map2 (+) (w_0 s ! t)
                    (map2 (-)
                      (map (\<lambda>e. alpha * r_arr s ! t * e) (map2 (-) (y_arr s ! t) (p_arr s ! t)))
                      (map (\<lambda>w. delta * w) (w_0 s ! t)))))"
proof
  assume "0 < T"
  from run_history[OF this, of R J maxv n alpha delta gamma g]
  obtain ex k s gs where r: "run R J maxv n T alpha delta gamma g = Some (ex, k, s)"
    and k: "k \<le> T - 1"
    and d: "(w_0 s ! 0, gs 0) = randn_vec (randn R) n g"
    and rb: "r_bar s ! 0 = 0"
    and h: "\<forall>t<k. recorded R J alpha delta gamma n s gs t"
    and c: "case ex of
           Exhausted \<Rightarrow> k = T - 1 \<and> (\<forall>t<k. y_arr s ! t \<noteq> maxv)
         | Break \<Rightarrow> 0 < k \<and> y_arr s ! (k - 1) = maxv \<and> (\<forall>t<k - 1. y_arr s ! t \<noteq> maxv)"
    by blast
  note stop = run_stops[OF k c]
  have it: "p_arr s ! t = map sigmoid (w_0 s ! t)
            \<and> (y_arr s ! t, gs (t + 1)) = binomial_vec (binomial1 R) (p_arr s ! t) (gs t)
            \<and> r_arr s ! t = J (y_arr s ! t)
            \<and> r_bar s ! (t + 1) = gamma * r_bar s ! t + (1 - gamma) * r_arr s ! t
            \<and> w_0 s ! (t + 1)
                = map2 (+) (w_0 s ! t)
                    (map2 (-)
                      (map (\<lambda>e. alpha * r_arr s ! t * e) (map2 (-) (y_arr s ! t) (p_arr s ! t)))
                      (map (\<lambda>w. delta * w) (w_0 s ! t)))" if "t < k" for t
  proof -
    have rec: "recorded R J alpha delta gamma n s gs t"
      using h that by simp
    then have "p_arr s ! t = map sigmoid (w_0 s ! t)"
      and "(y_arr s ! t, gs (t + 1)) = binomial_vec (binomial1 R) (p_arr s ! t) (gs t)"
      and "r_arr s ! t = J (y_arr s ! t)"
      and "r_bar s ! (t + 1) = gamma * r_bar s ! t + (1 - gamma) * r_arr s ! t"
      by (simp_all add: recorded_def)
    then show ?thesis
      using recorded_vector[OF rec] by blast
  qed
  show "\<exists>ex k s gs. run R J maxv n T alpha delta gamma g = Some (ex, k, s)
       \<and> k \<le> T - 1 \<and> (\<forall>t<k - 1. y_arr s ! t \<noteq> maxv)
       \<and> (k < T - 1 \<longrightarrow> 0 < k \<and> y_arr s ! (k - 1) = maxv)
       \<and> (w_0 s ! 0, gs 0) = randn_vec (randn R) n g
       \<and> r_bar s ! 0 = 0
       \<and> (\<forall>t<k. p_arr s ! t = map sigmoid (w_0 s ! t)
            \<and> (y_arr s ! t, gs (t + 1)) = binomial_vec (binomial1 R) (p_arr s ! t) (gs t)
            \<and> r_arr s ! t = J (y_arr s ! t)
            \<and> r_bar s ! (t + 1) = gamma * r_bar s ! t + (1 - gamma) * r_arr s ! t
            \<and> w_0 s ! (t + 1)
                = map2 (+) (w_0 s ! t)
                    (map2 (-)
                      (map (\<lambda>e. alpha * r_arr s ! t * e) (map2 (-) (y_arr s ! t) (p_arr s ! t)))
                      (map (\<lambda>w. delta * w) (w_0 s ! t))))"
    using r k stop d rb it
    by (intro exI[of _ ex] exI[of _ k] exI[of _ s] exI[of _ gs]) simp
qed

theorem baseline_recurrence_witness:
  "\<exists>s. run scripted one_max [0, 0] 2 3 (1 / 100) 0 (9 / 10) 0 = Some (Exhausted, 2, s)
      \<and> r_bar s ! 0 = 0 \<and> y_arr s ! 0 = [0, 1] \<and> r_arr s ! 0 = 10 \<and> r_bar s ! 1 = 1
      \<and> y_arr s ! 1 = [1, 1] \<and> r_arr s ! 1 = 20 \<and> r_bar s ! 2 = 29 / 10"
proof -
  from baseline_recurrence[of 3 scripted one_max "[0, 0]" 2 "1 / 100" 0 "9 / 10" 0]
  obtain ex k s gs
    where r: "run scripted one_max [0, 0] 2 3 (1 / 100) 0 (9 / 10) 0 = Some (ex, k, s)"
      and d: "(w_0 s ! 0, gs 0) = randn_vec (randn scripted) 2 0"
      and rb0: "r_bar s ! 0 = 0"
      and u: "\<forall>t<k. p_arr s ! t = map sigmoid (w_0 s ! t)
            \<and> (y_arr s ! t, gs (t + 1)) = binomial_vec (binomial1 scripted) (p_arr s ! t) (gs t)
            \<and> r_arr s ! t = one_max (y_arr s ! t)
            \<and> r_bar s ! (t + 1) = 9 / 10 * r_bar s ! t + (1 - 9 / 10) * r_arr s ! t
            \<and> w_0 s ! (t + 1)
                = map2 (+) (w_0 s ! t)
                    (map2 (-)
                      (map (\<lambda>e. 1 / 100 * r_arr s ! t * e) (map2 (-) (y_arr s ! t) (p_arr s ! t)))
                      (map (\<lambda>w. 0 * w) (w_0 s ! t)))"
    by auto
  from r run_example_exhausted have ex: "ex = Exhausted" and k: "k = Suc (Suc 0)"
    by auto
  have w0: "w_0 s ! 0 = [0, 0]" and g0: "gs 0 = 0"
    using d by (simp_all add: scripted_randn)
  have p0: "p_arr s ! 0 = [1 / 2, 1 / 2]"
    using u k by (simp add: w0 sigmoid_0)
  have "(y_arr s ! 0, gs (Suc 0)) = binomial_vec (binomial1 scripted) (p_arr s ! 0) (gs 0)"
    using u k by simp
  then have y0: "y_arr s ! 0 = [0, 1]" and g1: "gs (Suc 0) = 2"
    unfolding p0 g0 scripted_binomial by simp_all
  have r0: "r_arr s ! 0 = 10"
    using u k by (simp add: y0 one_max_def)
  have rb1: "r_bar s ! Suc 0 = 1"
    using u k by (simp add: r0 rb0)
  have w1: "w_0 s ! Suc 0 = [- 1 / 20, 1 / 20]"
    using u k by (simp add: w0 r0 y0 p0)
  have p1: "p_arr s ! Suc 0 = [sigmoid (- 1 / 20), sigmoid (1 / 20)]"
    using u k by (simp add: w1)
  have "(y_arr s ! Suc 0, gs (Suc (Suc 0)))
      = binomial_vec (binomial1 scripted) (p_arr s ! Suc 0) (gs (Suc 0))"
    using u k by simp
  then have y1: "y_arr s ! Suc 0 = [1, 1]"
    unfolding p1 g1 scripted_binomial by simp
  have r1: "r_arr s ! Suc 0 = 20"
    using u k by (simp add: y1 one_max_def)
  have rb2: "r_bar s ! Suc (Suc 0) = 29 / 10"
    using u k by (simp add: r1 rb1)
  show ?thesis
    using r ex k rb0 y0 r0 rb1 y1 r1 rb2 by (simp add: numeral_2_eq_2)
qed

text \<open>
  C7. For every \<open>T > 1\<close> the run returns: the loop is a total function, no array access is out
  of range, and it executes \<open>k\<close> iterations with \<open>0 < k \<le> T - 1\<close>. It ends by exhausting
  the range exactly when none of the \<open>k\<close> samples equals the known maximum, and then
  \<open>k = T - 1\<close>; it ends by the \<open>break\<close> at the first iteration whose sample equals the known
  maximum.
\<close>

theorem run_budget:
  "1 < T \<longrightarrow> (\<exists>ex k s. run R J maxv n T alpha delta gamma g = Some (ex, k, s)
     \<and> 0 < k \<and> k \<le> T - 1
     \<and> (ex = Exhausted \<longleftrightarrow> (\<forall>t<k. y_arr s ! t \<noteq> maxv))
     \<and> (ex = Exhausted \<longrightarrow> k = T - 1)
     \<and> (ex = Break \<longrightarrow> y_arr s ! (k - 1) = maxv \<and> (\<forall>t<k - 1. y_arr s ! t \<noteq> maxv)))"
proof
  assume T: "1 < T"
  then have "0 < T"
    by simp
  from run_history[OF this, of R J maxv n alpha delta gamma g]
  obtain ex k s gs where r: "run R J maxv n T alpha delta gamma g = Some (ex, k, s)"
    and k: "k \<le> T - 1"
    and c: "case ex of
           Exhausted \<Rightarrow> k = T - 1 \<and> (\<forall>t<k. y_arr s ! t \<noteq> maxv)
         | Break \<Rightarrow> 0 < k \<and> y_arr s ! (k - 1) = maxv \<and> (\<forall>t<k - 1. y_arr s ! t \<noteq> maxv)"
    by blast
  show "\<exists>ex k s. run R J maxv n T alpha delta gamma g = Some (ex, k, s)
     \<and> 0 < k \<and> k \<le> T - 1
     \<and> (ex = Exhausted \<longleftrightarrow> (\<forall>t<k. y_arr s ! t \<noteq> maxv))
     \<and> (ex = Exhausted \<longrightarrow> k = T - 1)
     \<and> (ex = Break \<longrightarrow> y_arr s ! (k - 1) = maxv \<and> (\<forall>t<k - 1. y_arr s ! t \<noteq> maxv))"
  proof (cases ex)
    case Break
    then have "0 < k" and "y_arr s ! (k - 1) = maxv" and "\<forall>t<k - 1. y_arr s ! t \<noteq> maxv"
      using c by simp_all
    moreover from this have "\<not> (\<forall>t<k. y_arr s ! t \<noteq> maxv)"
      by (metis diff_less zero_less_one)
    ultimately show ?thesis
      using r k Break by auto
  next
    case Exhausted
    then have "k = T - 1" and "\<forall>t<k. y_arr s ! t \<noteq> maxv"
      using c by simp_all
    then show ?thesis
      using r T Exhausted by auto
  qed
qed

theorem run_budget_witness:
  "(1::nat) < 3
   \<and> (\<exists>s. run scripted one_max [1, 1] 2 3 (1 / 100) 0 (9 / 10) 0 = Some (Break, 2, s)
        \<and> y_arr s ! 1 = [1, 1] \<and> y_arr s ! 0 \<noteq> [1, 1])
   \<and> (\<exists>s. run scripted one_max [0, 0] 2 3 (1 / 100) 0 (9 / 10) 0 = Some (Exhausted, 2, s)
        \<and> y_arr s ! 0 \<noteq> [0, 0] \<and> y_arr s ! 1 \<noteq> [0, 0])"
proof -
  have T: "(1::nat) < 3"
    by simp
  from run_budget[of 3 scripted one_max "[1, 1]" 2 "1 / 100" 0 "9 / 10" 0] T obtain ex k s
    where r: "run scripted one_max [1, 1] 2 3 (1 / 100) 0 (9 / 10) 0 = Some (ex, k, s)"
      and b: "ex = Break \<longrightarrow> y_arr s ! (k - 1) = [1, 1] \<and> (\<forall>t<k - 1. y_arr s ! t \<noteq> [1, 1])"
    by blast
  from r run_example_break have "ex = Break" and "k = 2"
    by auto
  with b have "y_arr s ! 1 = [1, 1]" and "y_arr s ! 0 \<noteq> [1, 1]"
    by simp_all
  with r \<open>ex = Break\<close> \<open>k = 2\<close>
  have 1: "\<exists>s. run scripted one_max [1, 1] 2 3 (1 / 100) 0 (9 / 10) 0 = Some (Break, 2, s)
        \<and> y_arr s ! 1 = [1, 1] \<and> y_arr s ! 0 \<noteq> [1, 1]"
    by blast
  from run_budget[of 3 scripted one_max "[0, 0]" 2 "1 / 100" 0 "9 / 10" 0] T obtain ex' k' s'
    where r': "run scripted one_max [0, 0] 2 3 (1 / 100) 0 (9 / 10) 0 = Some (ex', k', s')"
      and e: "ex' = Exhausted \<longleftrightarrow> (\<forall>t<k'. y_arr s' ! t \<noteq> [0, 0])"
    by blast
  from r' run_example_exhausted have "ex' = Exhausted" and "k' = 2"
    by auto
  with e have "y_arr s' ! 0 \<noteq> [0, 0]" and "y_arr s' ! 1 \<noteq> [0, 0]"
    by simp_all
  with r' \<open>ex' = Exhausted\<close> \<open>k' = 2\<close>
  have 2: "\<exists>s. run scripted one_max [0, 0] 2 3 (1 / 100) 0 (9 / 10) 0 = Some (Exhausted, 2, s)
        \<and> y_arr s ! 0 \<noteq> [0, 0] \<and> y_arr s ! 1 \<noteq> [0, 0]"
    by blast
  from T 1 2 show ?thesis
    by blast
qed

end
